theory Spec2Isabelle
  imports Complex_Main "HOL-Library.Word" "HOL-Library.AList" "HOL-Library.Multiset"
    "HOL-Library.Monad_Syntax"
begin

section \<open>JavaScript values used by the DICOM parser\<close>

text \<open>
  Array buffers are lists of bytes. JavaScript numbers that hold integers are modelled as
  \<open>nat\<close> or \<open>int\<close>; numbers that may be fractional are modelled as \<open>real\<close>
  (doubles idealised as exact reals). A typed array keeps its element width.
\<close>

type_synonym byte = "8 word"

datatype typed_array = Uint8Array "8 word list" | Uint16Array "16 word list"

text \<open>\<open>sliceData[i]\<close>: reading past the end of a typed array gives \<open>undefined\<close>.\<close>

fun array_get :: "typed_array \<Rightarrow> nat \<Rightarrow> nat option" where
  "array_get (Uint8Array xs) i = (if i < length xs then Some (unat (xs ! i)) else None)"
| "array_get (Uint16Array xs) i = (if i < length xs then Some (unat (xs ! i)) else None)"

text \<open>\<open>x instanceof Uint16Array\<close>.\<close>

fun instanceof_Uint16Array :: "typed_array \<Rightarrow> bool" where
  "instanceof_Uint16Array (Uint16Array xs) = True"
| "instanceof_Uint16Array (Uint8Array xs) = False"

text \<open>
  Storing a value into a typed array converts it modulo the element width;
  \<open>undefined\<close> converts to \<open>NaN\<close> and is stored as 0.
\<close>

definition to_uint8 :: "nat option \<Rightarrow> 8 word" where
  "to_uint8 v = (case v of None \<Rightarrow> 0 | Some n \<Rightarrow> of_nat n)"

definition to_uint16 :: "nat option \<Rightarrow> 16 word" where
  "to_uint16 v = (case v of None \<Rightarrow> 0 | Some n \<Rightarrow> of_nat n)"

text \<open>\<open>Math.round\<close>: the nearest integer, ties towards plus infinity.\<close>

definition js_round :: "real \<Rightarrow> int" where
  "js_round x = \<lfloor>x + 1 / 2\<rfloor>"

record dicomData =
  pd_metadata :: "(string \<times> int) list"
  pd_pixelData :: "typed_array option"
  pd_rows :: nat
  pd_columns :: nat

section \<open>Element decoding: \<open>DicomParser.parseDicom\<close>\<close>

text \<open>
  \<open>DataView\<close> reads are little-endian (\<open>littleEndian = true\<close>) and raise a
  \<open>RangeError\<close> when they reach past the buffer: \<open>None\<close>.
\<close>

definition getUint8 :: "byte list \<Rightarrow> nat \<Rightarrow> nat option" where
  "getUint8 buf off = (if off < length buf then Some (unat (buf ! off)) else None)"

definition getUint16 :: "byte list \<Rightarrow> nat \<Rightarrow> nat option" where
  "getUint16 buf off =
     (if off + 2 \<le> length buf
      then Some (unat (buf ! off) + 256 * unat (buf ! (off + 1)))
      else None)"

definition getUint32 :: "byte list \<Rightarrow> nat \<Rightarrow> nat option" where
  "getUint32 buf off =
     (if off + 4 \<le> length buf
      then Some (unat (buf ! off) + 256 * unat (buf ! (off + 1))
                 + 65536 * unat (buf ! (off + 2)) + 16777216 * unat (buf ! (off + 3)))
      else None)"

definition getInt16 :: "byte list \<Rightarrow> nat \<Rightarrow> int option" where
  "getInt16 buf off =
     map_option (\<lambda>n. if n < 32768 then int n else int n - 65536) (getUint16 buf off)"

definition getInt32 :: "byte list \<Rightarrow> nat \<Rightarrow> int option" where
  "getInt32 buf off =
     map_option (\<lambda>n. if n < 2147483648 then int n else int n - 4294967296) (getUint32 buf off)"

text \<open>\<open>n.toString(16).padStart(4, '0')\<close> for a 16-bit \<open>n\<close>: lower-case digits.\<close>

definition hex_digit :: "nat \<Rightarrow> char" where
  "hex_digit n = ''0123456789abcdef'' ! (n mod 16)"

definition hex4 :: "nat \<Rightarrow> string" where
  "hex4 n = [hex_digit (n div 4096), hex_digit (n div 256), hex_digit (n div 16), hex_digit n]"

text \<open>\<open>String.fromCharCode(c0, c1)\<close> on two bytes.\<close>

definition fromCharCode2 :: "nat \<Rightarrow> nat \<Rightarrow> string" where
  "fromCharCode2 c0 c1 = [char_of c0, char_of c1]"

definition long_vrs :: "string list" where
  "long_vrs = [''OB'', ''OW'', ''OF'', ''SQ'', ''UT'', ''UN'']"

record element_header =
  eh_tag :: string
  eh_vr :: string
  eh_length :: nat
  eh_valueOffset :: nat

text \<open>
  Lines 53 to 83: tag, VR, length and value offset of the element at \<open>offset\<close>. The
  inner test of the second branch repeats the outer one, as the source does.
\<close>

definition read_header :: "byte list \<Rightarrow> nat \<Rightarrow> element_header option" where
  "read_header buf offset = do {
     group \<leftarrow> getUint16 buf offset;
     element \<leftarrow> getUint16 buf (offset + 2);
     c0 \<leftarrow> getUint8 buf (offset + 4);
     c1 \<leftarrow> getUint8 buf (offset + 5);
     let tag = hex4 group @ hex4 element;
     let vr = fromCharCode2 c0 c1;
     if vr \<in> set long_vrs then do {
       let off6 = offset + 6;
       probe \<leftarrow> getUint32 buf off6;
       let off' = (if probe \<noteq> 0 then off6 + 4 else off6);
       len \<leftarrow> getUint32 buf off';
       Some \<lparr>eh_tag = tag, eh_vr = vr, eh_length = len, eh_valueOffset = off' + 4\<rparr>
     } else do {
       let off6 = offset + 6;
       if vr \<in> set long_vrs then do {
         let off8 = off6 + 2;
         len \<leftarrow> getUint32 buf off8;
         Some \<lparr>eh_tag = tag, eh_vr = vr, eh_length = len, eh_valueOffset = off8 + 4\<rparr>
       } else do {
         len \<leftarrow> getUint16 buf off6;
         Some \<lparr>eh_tag = tag, eh_vr = vr, eh_length = len, eh_valueOffset = off6 + 2\<rparr>
       }
     }
   }"

text \<open>\<open>arrayBuffer.slice(begin, end)\<close> clamps both ends to the buffer.\<close>

definition buffer_slice :: "byte list \<Rightarrow> nat \<Rightarrow> nat \<Rightarrow> byte list" where
  "buffer_slice buf b e = take (e - b) (drop b buf)"

text \<open>
  \<open>new Uint16Array(buffer)\<close> raises a \<open>RangeError\<close> when the byte length is odd;
  the elements are read in the platform's byte order, little-endian here.
\<close>

fun words_of_bytes :: "byte list \<Rightarrow> 16 word list" where
  "words_of_bytes (a # b # bs) = (of_nat (unat a + 256 * unat b)) # words_of_bytes bs"
| "words_of_bytes bs = []"

definition new_Uint16Array :: "byte list \<Rightarrow> typed_array option" where
  "new_Uint16Array bs = (if odd (length bs) then None else Some (Uint16Array (words_of_bytes bs)))"

record parse_state =
  ps_metadata :: "(string \<times> int) list"
  ps_pixelData :: "typed_array option"
  ps_rows :: nat
  ps_columns :: nat

text \<open>Lines 85 to 116: what the element does to the collected result.\<close>

definition apply_element :: "byte list \<Rightarrow> element_header \<Rightarrow> parse_state \<Rightarrow> parse_state option" where
  "apply_element buf h st =
     (let tag = eh_tag h; vr = eh_vr h; len = eh_length h; valueOffset = eh_valueOffset h in
      if tag = ''7FE00010'' then
        (if vr = ''OW'' \<or> vr = ''OB'' then
           (if map_of (ps_metadata st) ''00280100'' = Some 16 then do {
              px \<leftarrow> new_Uint16Array (buffer_slice buf valueOffset (valueOffset + len));
              Some (st\<lparr>ps_pixelData := Some px\<rparr>)
            } else
              Some (st\<lparr>ps_pixelData :=
                Some (Uint8Array (buffer_slice buf valueOffset (valueOffset + len)))\<rparr>))
         else Some st)
      else if tag = ''00280010'' then do {
        v \<leftarrow> getUint16 buf valueOffset;
        Some (st\<lparr>ps_metadata := AList.update tag (int v) (ps_metadata st), ps_rows := v\<rparr>)
      }
      else if tag = ''00280011'' then do {
        v \<leftarrow> getUint16 buf valueOffset;
        Some (st\<lparr>ps_metadata := AList.update tag (int v) (ps_metadata st), ps_columns := v\<rparr>)
      }
      else if tag = ''00280100'' then do {
        v \<leftarrow> getUint16 buf valueOffset;
        Some (st\<lparr>ps_metadata := AList.update tag (int v) (ps_metadata st)\<rparr>)
      }
      else if tag = ''00281050'' then
        (if len = 2 then do {
           v \<leftarrow> getInt16 buf valueOffset;
           Some (st\<lparr>ps_metadata := AList.update tag v (ps_metadata st)\<rparr>)
         } else if len = 4 then do {
           v \<leftarrow> getInt32 buf valueOffset;
           Some (st\<lparr>ps_metadata := AList.update tag v (ps_metadata st)\<rparr>)
         } else Some st)
      else if tag = ''00281051'' then
        (if len = 2 then do {
           v \<leftarrow> getUint16 buf valueOffset;
           Some (st\<lparr>ps_metadata := AList.update tag (int v) (ps_metadata st)\<rparr>)
         } else if len = 4 then do {
           v \<leftarrow> getUint32 buf valueOffset;
           Some (st\<lparr>ps_metadata := AList.update tag (int v) (ps_metadata st)\<rparr>)
         } else Some st)
      else if tag = ''00200013'' then do {
        v \<leftarrow> getUint16 buf valueOffset;
        Some (st\<lparr>ps_metadata := AList.update tag (int v) (ps_metadata st)\<rparr>)
      }
      else Some st)"

text \<open>Lines 119 to 124: the cursor after the element, with the even-alignment step.\<close>

definition next_offset :: "element_header \<Rightarrow> nat" where
  "next_offset h =
     (let offset = eh_valueOffset h + eh_length h in
      if eh_length h mod 2 = 1 \<and> eh_vr h \<noteq> ''SQ'' \<and> eh_vr h \<noteq> ''UT'' then offset + 1 else offset)"

text \<open>One pass of the \<open>try\<close> block; \<open>None\<close> when it raised.\<close>

definition parse_element :: "byte list \<Rightarrow> nat \<Rightarrow> parse_state \<Rightarrow> (nat \<times> parse_state) option" where
  "parse_element buf offset st = do {
     h \<leftarrow> read_header buf offset;
     st' \<leftarrow> apply_element buf h st;
     Some (next_offset h, st')
   }"

text \<open>Every element moves the cursor forward by at least 8 bytes, so the loop ends.\<close>

lemma read_header_valueOffset:
  "read_header buf offset = Some h \<Longrightarrow> offset + 8 \<le> eh_valueOffset h"
  by (auto simp: read_header_def Let_def split: bind_splits if_splits)

lemma parse_element_advances:
  "parse_element buf offset st = Some (offset', st') \<Longrightarrow> offset + 8 \<le> offset'"
  by (auto simp: parse_element_def next_offset_def Let_def split: bind_splits if_splits
      dest!: read_header_valueOffset)

text \<open>
  The \<open>while (offset < arrayBuffer.byteLength - 8)\<close> loop; the \<open>catch\<close> leaves the
  loop with what was collected.
\<close>

function parse_loop :: "byte list \<Rightarrow> nat \<Rightarrow> parse_state \<Rightarrow> parse_state" where
  "parse_loop buf offset st =
     (if offset + 8 < length buf then
        (case parse_element buf offset st of
           None \<Rightarrow> st
         | Some (offset', st') \<Rightarrow> parse_loop buf offset' st')
      else st)"
  by pat_completeness auto
termination
proof (relation "measure (\<lambda>(buf, offset, st). length buf - offset)")
  show "wf (measure (\<lambda>(buf, offset, st). length buf - offset))" by simp
next
  fix buf :: "byte list" and offset st x2 x y
  assume "offset + 8 < length buf" and "parse_element buf offset st = Some x2"
    and "(x, y) = x2"
  then have "offset + 8 \<le> x"
    using parse_element_advances [of buf offset st x y] by simp
  with \<open>offset + 8 < length buf\<close>
  show "((buf, x, y), (buf, offset, st)) \<in> measure (\<lambda>(buf, offset, st). length buf - offset)"
    by simp
qed

declare parse_loop.simps [simp del]

definition has_magic :: "byte list \<Rightarrow> bool" where
  "has_magic buf \<longleftrightarrow>
     length buf > 132 \<and> map (\<lambda>i. char_of (unat (buf ! i))) [128, 129, 130, 131] = ''DICM''"

definition parseDicom :: "byte list \<Rightarrow> dicomData" where
  "parseDicom buf =
     (let offset = (if has_magic buf then 132 else 0);
          st = parse_loop buf offset
                 \<lparr>ps_metadata = [], ps_pixelData = None, ps_rows = 0, ps_columns = 0\<rparr>
      in \<lparr>pd_metadata = ps_metadata st, pd_pixelData = ps_pixelData st,
          pd_rows = ps_rows st, pd_columns = ps_columns st\<rparr>)"

section \<open>Volume assembly: \<open>DicomParser.processDicomFolder\<close>\<close>

record slice =
  data :: typed_array
  metadata :: "(string \<times> int) list"
  rows :: nat
  columns :: nat
  instanceNumber :: nat

record volume =
  vdata :: typed_array
  dimensions :: "nat \<times> nat \<times> nat"

text \<open>
  The two ways \<open>processDicomFolder\<close> ends without a volume:
  \<open>throw new Error('No valid DICOM files found')\<close>, and the \<open>RangeError\<close> that a
  spread call raises when it is given more arguments than the engine accepts.
\<close>

datatype load_error = NoValidDicomFiles | RangeError

text \<open>\<open>dicomData.metadata['00200013'] || 0\<close>\<close>

definition instance_of :: "(string \<times> int) list \<Rightarrow> nat" where
  "instance_of md = (case map_of md ''00200013'' of None \<Rightarrow> 0 | Some v \<Rightarrow> nat v)"

text \<open>
  The first loop of \<open>processDicomFolder\<close>. An entry \<open>None\<close> stands for a file whose
  read or parse raised: the \<open>catch\<close> logs a warning and the loop goes on.
\<close>

definition usable :: "dicomData \<Rightarrow> bool" where
  "usable dd \<longleftrightarrow> pd_pixelData dd \<noteq> None \<and> pd_rows dd \<noteq> 0 \<and> pd_columns dd \<noteq> 0"

fun collect_slices :: "dicomData option list \<Rightarrow> slice list" where
  "collect_slices [] = []"
| "collect_slices (None # fs) = collect_slices fs"
| "collect_slices (Some dd # fs) =
     (if usable dd
      then \<lparr>data = the (pd_pixelData dd), metadata = pd_metadata dd, rows = pd_rows dd,
            columns = pd_columns dd, instanceNumber = instance_of (pd_metadata dd)\<rparr>
           # collect_slices fs
      else collect_slices fs)"

text \<open>
  \<open>slices.sort((a, b) => (a.instanceNumber || 0) - (b.instanceNumber || 0))\<close>:
  \<open>Array.prototype.sort\<close> is stable, and a stable sort by a key has one result,
  which \<open>sort_key\<close> computes.
\<close>

definition sort_slices :: "slice list \<Rightarrow> slice list" where
  "sort_slices ss = sort_key instanceNumber ss"

text \<open>The fill loops: \<open>volumeData[z * sliceSize + i] = sliceData[i]\<close>.\<close>

definition fill_slice16 :: "nat \<Rightarrow> nat \<Rightarrow> typed_array \<Rightarrow> 16 word list \<Rightarrow> 16 word list" where
  "fill_slice16 sliceSize z sliceData vol =
     fold (\<lambda>i v. v[z * sliceSize + i := to_uint16 (array_get sliceData i)]) [0..<sliceSize] vol"

definition fill_slice8 :: "nat \<Rightarrow> nat \<Rightarrow> typed_array \<Rightarrow> 8 word list \<Rightarrow> 8 word list" where
  "fill_slice8 sliceSize z sliceData vol =
     fold (\<lambda>i v. v[z * sliceSize + i := to_uint8 (array_get sliceData i)]) [0..<sliceSize] vol"

definition fill_volume16 :: "nat \<Rightarrow> slice list \<Rightarrow> 16 word list" where
  "fill_volume16 sliceSize ss =
     fold (\<lambda>z v. fill_slice16 sliceSize z (data (ss ! z)) v) [0..<length ss]
       (replicate (sliceSize * length ss) 0)"

definition fill_volume8 :: "nat \<Rightarrow> slice list \<Rightarrow> 8 word list" where
  "fill_volume8 sliceSize ss =
     fold (\<lambda>z v. fill_slice8 sliceSize z (data (ss ! z)) v) [0..<length ss]
       (replicate (sliceSize * length ss) 0)"

text \<open>\<open>Math.max(...volumeData)\<close> and \<open>Math.min(...volumeData)\<close> on a non-empty array.\<close>

definition max_of :: "nat list \<Rightarrow> nat" where
  "max_of xs = fold max (tl xs) (hd xs)"

definition min_of :: "nat list \<Rightarrow> nat" where
  "min_of xs = fold min (tl xs) (hd xs)"

text \<open>
  The normalisation loop:
  \<open>normalizedVolume[i] = Math.round(((volumeData[i] - minVal) / range) * 255)\<close>
  with \<open>range = maxVal - minVal || 1\<close>.
\<close>

definition normalize_voxel :: "nat \<Rightarrow> nat \<Rightarrow> nat \<Rightarrow> 8 word" where
  "normalize_voxel minVal rng v =
     of_int (js_round (((real v - real minVal) / real rng) * 255))"

definition normalize16 :: "16 word list \<Rightarrow> 8 word list" where
  "normalize16 vol =
     (let vs = map unat vol;
          maxVal = max_of vs;
          minVal = min_of vs;
          rng = (if maxVal - minVal = 0 then 1 else maxVal - minVal)
      in map (normalize_voxel minVal rng) vs)"

text \<open>
  The part of \<open>processDicomFolder\<close> after the files have been parsed.

  \<open>Math.max(...volumeData)\<close> and \<open>Math.min(...volumeData)\<close> pass every element of the
  buffer as one argument of the call. ECMAScript sets no bound on the number of
  arguments, every engine has one (JavaScriptCore: 65536; V8: what fits on the
  stack), and a call beyond it raises \<open>RangeError\<close>. The bound is the parameter
  \<open>maxArgs\<close>. The two calls stand outside every \<open>try\<close>, so the error leaves
  \<open>processDicomFolder\<close>; they are only made on the 16-bit path.
\<close>

definition assemble :: "nat \<Rightarrow> slice list \<Rightarrow> load_error + volume" where
  "assemble maxArgs slices0 =
     (if length slices0 = 0 then Inl NoValidDicomFiles
      else
        let slices = sort_slices slices0;
            rws = rows (slices ! 0);
            cols = columns (slices ! 0);
            depth = length slices;
            is16Bit = instanceof_Uint16Array (data (slices ! 0));
            volumeSize = rws * cols * depth;
            sliceSize = rws * cols
        in if is16Bit
           then (if maxArgs < volumeSize then Inl RangeError
                 else Inr \<lparr>vdata = Uint8Array (normalize16 (fill_volume16 sliceSize slices)),
                          dimensions = (cols, rws, depth)\<rparr>)
           else Inr \<lparr>vdata = Uint8Array (fill_volume8 sliceSize slices),
                    dimensions = (cols, rws, depth)\<rparr>)"

definition processParsed :: "nat \<Rightarrow> dicomData option list \<Rightarrow> load_error + volume" where
  "processParsed maxArgs parsed = assemble maxArgs (collect_slices parsed)"

text \<open>
  The whole of \<open>processDicomFolder\<close>; a file is its bytes, or \<open>None\<close> when
  \<open>file.arrayBuffer()\<close> is rejected.
\<close>

definition processDicomFolder :: "nat \<Rightarrow> byte list option list \<Rightarrow> load_error + volume" where
  "processDicomFolder maxArgs files = processParsed maxArgs (map (map_option parseDicom) files)"

section \<open>Atlas packing: \<open>loadVolume\<close>\<close>

text \<open>
  \<open>Math.ceil(Math.sqrt(depth))\<close> is the least \<open>n\<close> with \<open>depth \<le> n * n\<close>; the search
  below computes it, and lemma \<open>ceil_sqrt_real\<close> relates it to the expression of the
  source over the reals.
\<close>

function ceil_sqrt_from :: "nat \<Rightarrow> nat \<Rightarrow> nat" where
  "ceil_sqrt_from d n = (if d \<le> n * n then n else ceil_sqrt_from d (Suc n))"
  by pat_completeness auto
termination
  by (relation "measure (\<lambda>(d, n). d - n * n)") auto

declare ceil_sqrt_from.simps [simp del]

definition ceil_sqrt :: "nat \<Rightarrow> nat" where
  "ceil_sqrt d = ceil_sqrt_from d 0"

text \<open>
  \<open>this.textureLayout\<close>. Its height is the one number of the layout that can be
  \<open>NaN\<close>: \<open>None\<close>.
\<close>

record texture_layout =
  tl_width :: nat
  tl_height :: "nat option"
  tl_slices :: nat
  tl_volumeSize :: "nat \<times> nat \<times> nat"

record loaded_volume =
  textureData :: "8 word list"
  textureLayout :: texture_layout

text \<open>\<open>volumeData.data[volumeIdx]\<close>: the number stored there, or \<open>undefined\<close>.\<close>

definition number_at :: "real list \<Rightarrow> nat \<Rightarrow> real option" where
  "number_at vol i = (if i < length vol then Some (vol ! i) else None)"

text \<open>
  \<open>Math.max(0, Math.min(255, Math.round(v)))\<close> stored into the \<open>Uint8Array\<close>;
  \<open>undefined\<close> becomes \<open>NaN\<close>, which is stored as 0.
\<close>

definition texel_value :: "real option \<Rightarrow> 8 word" where
  "texel_value v = (case v of None \<Rightarrow> 0 | Some x \<Rightarrow> of_int (max 0 (min 255 (js_round x))))"

definition volume_index :: "nat \<Rightarrow> nat \<Rightarrow> nat \<Rightarrow> nat \<Rightarrow> nat \<Rightarrow> nat" where
  "volume_index width height z y x = z * width * height + y * width + x"

definition tex_index :: "nat \<Rightarrow> nat \<Rightarrow> nat \<Rightarrow> nat \<Rightarrow> nat \<Rightarrow> nat \<Rightarrow> nat" where
  "tex_index width height slicesPerRow z y x =
     (let sliceRow = z div slicesPerRow;
          sliceCol = z mod slicesPerRow;
          texWidth = slicesPerRow * width;
          texX = sliceCol * width + x;
          texY = sliceRow * height + y
      in texY * texWidth + texX)"

definition pack_texel ::
  "real list \<Rightarrow> nat \<Rightarrow> nat \<Rightarrow> nat \<Rightarrow> nat \<Rightarrow> nat \<Rightarrow> nat \<Rightarrow> 8 word list \<Rightarrow> 8 word list" where
  "pack_texel vol width height slicesPerRow z y x t =
     t[tex_index width height slicesPerRow z y x :=
         texel_value (number_at vol (volume_index width height z y x))]"

text \<open>The three nested \<open>for\<close> loops over \<open>z\<close>, \<open>y\<close> and \<open>x\<close>.\<close>

definition fill_texture ::
  "real list \<Rightarrow> nat \<Rightarrow> nat \<Rightarrow> nat \<Rightarrow> nat \<Rightarrow> 8 word list \<Rightarrow> 8 word list" where
  "fill_texture vol width height depth slicesPerRow t =
     fold (\<lambda>z. fold (\<lambda>y. fold (\<lambda>x. pack_texel vol width height slicesPerRow z y x)
                              [0..<width])
                    [0..<height])
          [0..<depth] t"

text \<open>
  \<open>Math.ceil(depth / slicesPerRow)\<close> is \<open>NaN\<close> when \<open>depth\<close> is 0, since
  \<open>slicesPerRow\<close> is then 0 too (a positive depth has a positive \<open>slicesPerRow\<close>). In
  that case \<open>texHeight\<close> is \<open>NaN\<close>, and so is \<open>texWidth * texHeight\<close>, for which
  \<open>new Uint8Array\<close> makes an array of length 0.
\<close>

definition loadVolume :: "nat \<times> nat \<times> nat \<Rightarrow> real list \<Rightarrow> loaded_volume" where
  "loadVolume dims vol =
     (case dims of (width, height, depth) \<Rightarrow>
        let slicesPerRow = ceil_sqrt depth;
            rws = (if slicesPerRow = 0 then None
                   else Some (nat \<lceil>real depth / real slicesPerRow\<rceil>));
            texWidth = slicesPerRow * width;
            texHeight = map_option (\<lambda>r. r * height) rws;
            size = (case texHeight of None \<Rightarrow> 0 | Some th \<Rightarrow> texWidth * th)
        in \<lparr>textureData =
              fill_texture vol width height depth slicesPerRow (replicate size 0),
            textureLayout = \<lparr>tl_width = texWidth, tl_height = texHeight, tl_slices = depth,
                              tl_volumeSize = (width, height, depth)\<rparr>\<rparr>)"

text \<open>The numbers held by the assembled volume, as \<open>loadVolume\<close> reads them.\<close>

fun array_numbers :: "typed_array \<Rightarrow> real list" where
  "array_numbers (Uint8Array xs) = map (\<lambda>b. real (unat b)) xs"
| "array_numbers (Uint16Array xs) = map (\<lambda>b. real (unat b)) xs"

definition loadAssembled :: "volume \<Rightarrow> loaded_volume" where
  "loadAssembled v = loadVolume (dimensions v) (array_numbers (vdata v))"

text \<open>
  The atlas pixel \<open>(tileCol(z) * width + x, tileRow(z) * height + y)\<close> that the
  specification gives to a voxel, and the inverse mapping from a pixel to a voxel.
\<close>

definition atlas_pixel :: "nat \<Rightarrow> nat \<Rightarrow> nat \<Rightarrow> nat \<times> nat \<times> nat \<Rightarrow> nat \<times> nat" where
  "atlas_pixel width height tileCountPerRow v =
     (case v of (x, y, z) \<Rightarrow>
        ((z mod tileCountPerRow) * width + x, (z div tileCountPerRow) * height + y))"

definition pixel_voxel :: "nat \<Rightarrow> nat \<Rightarrow> nat \<Rightarrow> nat \<times> nat \<Rightarrow> nat \<times> nat \<times> nat" where
  "pixel_voxel width height tileCountPerRow p =
     (case p of (px, py) \<Rightarrow>
        (px mod width, py mod height, (py div height) * tileCountPerRow + px div width))"

text \<open>The texel of the atlas at a pixel; the texture is stored row by row.\<close>

definition atlas_at :: "loaded_volume \<Rightarrow> nat \<times> nat \<Rightarrow> 8 word" where
  "atlas_at lv p = (case p of (px, py) \<Rightarrow> textureData lv ! (py * tl_width (textureLayout lv) + px))"

section \<open>The fragment shader: \<open>sampleVolume\<close> and \<open>main\<close>\<close>

text \<open>
  Shader floats are idealised as reals. A texture is the function that
  \<open>texture2D(u_volumeTexture, uv).r\<close> computes from a coordinate; the function of the
  atlas that \<open>loadVolume\<close> uploads is \<open>texture2D\<close> below. Division by zero is undefined
  in GLSL ES. The slab distances, where it happens for every axis-parallel ray (the
  initial camera included), follow IEEE 754 with a zero divisor taken as \<open>+0\<close> (type
  \<open>tval\<close>);
  elsewhere (a zero gradient in \<open>normalize\<close>, a zero window width) the quotient is the
  total one of HOL, and only the colour channels or inputs outside the stated
  preconditions depend on it.
\<close>

type_synonym vec2 = "real \<times> real"
type_synonym vec3 = "real \<times> real \<times> real"
type_synonym vec4 = "real \<times> real \<times> real \<times> real"
type_synonym sampler2D = "vec2 \<Rightarrow> real"

record uniforms =
  u_textureWidth :: real
  u_textureHeight :: real
  u_slices :: real
  u_threshold :: real
  u_opacity :: real
  u_windowLevel :: real
  u_windowWidth :: real
  u_volumeSize :: vec3
  u_zoom :: real
  u_rotationX :: real
  u_rotationY :: real

definition clamp :: "real \<Rightarrow> real \<Rightarrow> real \<Rightarrow> real" where
  "clamp x lo hi = min (max x lo) hi"

definition floorf :: "real \<Rightarrow> real" where
  "floorf x = of_int \<lfloor>x\<rfloor>"

definition glsl_mod :: "real \<Rightarrow> real \<Rightarrow> real" where
  "glsl_mod x y = x - y * floorf (x / y)"

definition mix :: "real \<Rightarrow> real \<Rightarrow> real \<Rightarrow> real" where
  "mix x y a = x * (1 - a) + y * a"

definition sampleVolume :: "sampler2D \<Rightarrow> uniforms \<Rightarrow> vec3 \<Rightarrow> real" where
  "sampleVolume tex u pos =
     (case pos of (px, py, pz) \<Rightarrow>
      case u_volumeSize u of (vx, vy, vz) \<Rightarrow>
        let x = clamp px 0.001 0.999;
            y = clamp py 0.001 0.999;
            z = clamp pz 0.001 0.999;
            sliceF = z * u_slices u;
            sliceIdx = floorf sliceF;
            sliceFrac = frac sliceF;
            slicesPerRow = u_textureWidth u / vx;
            row = floorf (sliceIdx / slicesPerRow);
            col = glsl_mod sliceIdx slicesPerRow;
            sliceSizeX = vx / u_textureWidth u;
            sliceSizeY = vy / u_textureHeight u;
            sliceOffsetX = col * vx / u_textureWidth u;
            sliceOffsetY = row * vy / u_textureHeight u;
            uvX = x * sliceSizeX + sliceOffsetX;
            uvY = y * sliceSizeY + sliceOffsetY;
            value1 = tex (uvX, uvY)
        in if sliceFrac > 0 \<and> sliceIdx < u_slices u - 1 then
             let nextSliceIdx = sliceIdx + 1;
                 nextRow = floorf (nextSliceIdx / slicesPerRow);
                 nextCol = glsl_mod nextSliceIdx slicesPerRow;
                 nextSliceOffsetX = nextCol * vx / u_textureWidth u;
                 nextSliceOffsetY = nextRow * vy / u_textureHeight u;
                 value2 = tex (uvX - sliceOffsetX + nextSliceOffsetX,
                               uvY - sliceOffsetY + nextSliceOffsetY)
             in mix value1 value2 sliceFrac
           else value1)"






subsection \<open>Vectors\<close>

definition vadd :: "vec3 \<Rightarrow> vec3 \<Rightarrow> vec3" where
  "vadd a b = (case a of (ax, ay, az) \<Rightarrow> case b of (bx, by, bz) \<Rightarrow> (ax + bx, ay + by, az + bz))"

definition vsub :: "vec3 \<Rightarrow> vec3 \<Rightarrow> vec3" where
  "vsub a b = (case a of (ax, ay, az) \<Rightarrow> case b of (bx, by, bz) \<Rightarrow> (ax - bx, ay - by, az - bz))"

definition vscale :: "vec3 \<Rightarrow> real \<Rightarrow> vec3" where
  "vscale a k = (case a of (ax, ay, az) \<Rightarrow> (ax * k, ay * k, az * k))"

definition dot3 :: "vec3 \<Rightarrow> vec3 \<Rightarrow> real" where
  "dot3 a b = (case a of (ax, ay, az) \<Rightarrow> case b of (bx, by, bz) \<Rightarrow> ax * bx + ay * by + az * bz)"

definition normalize3 :: "vec3 \<Rightarrow> vec3" where
  "normalize3 a = (case a of (ax, ay, az) \<Rightarrow>
     let len = sqrt (dot3 a a) in (ax / len, ay / len, az / len))"

text \<open>
  \<open>mat3(c0, c1, c2) * v\<close>: the matrix constructor takes the columns. Over the reals
  \<open>rotY * rotX * v\<close> is \<open>rotY * (rotX * v)\<close>.
\<close>

definition mat3_mul :: "vec3 \<times> vec3 \<times> vec3 \<Rightarrow> vec3 \<Rightarrow> vec3" where
  "mat3_mul m v =
     (case m of (c0, c1, c2) \<Rightarrow> case v of (x, y, z) \<Rightarrow>
        vadd (vadd (vscale c0 x) (vscale c1 y)) (vscale c2 z))"

definition alpha :: "vec4 \<Rightarrow> real" where
  "alpha c = (case c of (r, g, b, a) \<Rightarrow> a)"

definition clamp4 :: "vec4 \<Rightarrow> vec4" where
  "clamp4 c = (case c of (r, g, b, a) \<Rightarrow> (clamp r 0 1, clamp g 0 1, clamp b 0 1, clamp a 0 1))"

subsection \<open>Slab distances\<close>

datatype tval = NaN | NegInf | Fin real | PosInf

text \<open>\<open>a < b\<close> on floats: false as soon as one side is not a number.\<close>

fun tlt :: "tval \<Rightarrow> tval \<Rightarrow> bool" where
  "tlt NaN b = False"
| "tlt a NaN = False"
| "tlt NegInf NegInf = False"
| "tlt NegInf b = True"
| "tlt (Fin a) (Fin b) = (a < b)"
| "tlt (Fin a) PosInf = True"
| "tlt (Fin a) NegInf = False"
| "tlt PosInf b = False"

text \<open>\<open>a >= b\<close> on floats.\<close>

fun tge :: "tval \<Rightarrow> tval \<Rightarrow> bool" where
  "tge NaN b = False"
| "tge a NaN = False"
| "tge a NegInf = True"
| "tge PosInf b = True"
| "tge (Fin a) (Fin b) = (a \<ge> b)"
| "tge (Fin a) PosInf = False"
| "tge NegInf b = False"

text \<open>GLSL: \<open>min(x, y)\<close> is \<open>y\<close> if \<open>y < x\<close>, else \<open>x\<close>; \<open>max(x, y)\<close> is \<open>y\<close> if \<open>x < y\<close>, else \<open>x\<close>.\<close>

definition tmin :: "tval \<Rightarrow> tval \<Rightarrow> tval" where
  "tmin x y = (if tlt y x then y else x)"

definition tmax :: "tval \<Rightarrow> tval \<Rightarrow> tval" where
  "tmax x y = (if tlt x y then y else x)"

definition tdiv :: "real \<Rightarrow> real \<Rightarrow> tval" where
  "tdiv a b =
     (if b \<noteq> 0 then Fin (a / b)
      else if a > 0 then PosInf else if a < 0 then NegInf else NaN)"

definition slab :: "vec3 \<Rightarrow> vec3 \<Rightarrow> tval \<times> tval" where
  "slab rayOrigin rayDir =
     (case rayOrigin of (ox, oy, oz) \<Rightarrow> case rayDir of (dx, dy, dz) \<Rightarrow>
        let tMinX = tdiv (- 0.5 - ox) dx; tMinY = tdiv (- 0.5 - oy) dy; tMinZ = tdiv (- 0.5 - oz) dz;
            tMaxX = tdiv (0.5 - ox) dx; tMaxY = tdiv (0.5 - oy) dy; tMaxZ = tdiv (0.5 - oz) dz;
            t1X = tmin tMinX tMaxX; t1Y = tmin tMinY tMaxY; t1Z = tmin tMinZ tMaxZ;
            t2X = tmax tMinX tMaxX; t2Y = tmax tMinY tMaxY; t2Z = tmax tMinZ tMaxZ;
            tNear = tmax (tmax t1X t1Y) t1Z;
            tFar = tmin (tmin t2X t2Y) t2Z
        in (tNear, tFar))"

text \<open>\<open>tNear > tFar || tFar < 0.0\<close>\<close>

definition ray_misses :: "tval \<times> tval \<Rightarrow> bool" where
  "ray_misses t = (case t of (tNear, tFar) \<Rightarrow> tlt tFar tNear \<or> tlt tFar (Fin 0))"

subsection \<open>The ray\<close>

definition camera_ray :: "uniforms \<Rightarrow> vec2 \<Rightarrow> vec3 \<times> vec3" where
  "camera_ray u v_texCoord =
     (case v_texCoord of (tx, ty) \<Rightarrow>
        let rayOrigin = vscale (tx - 0.5, ty - 0.5, - 2.0) (u_zoom u);
            rayDir = (0, 0, 1);
            cosX = cos (u_rotationX u); sinX = sin (u_rotationX u);
            cosY = cos (u_rotationY u); sinY = sin (u_rotationY u);
            rotY = ((cosY, 0, - sinY), (0, 1, 0), (sinY, 0, cosY));
            rotX = ((1, 0, 0), (0, cosX, - sinX), (0, sinX, cosX))
        in (mat3_mul rotY (mat3_mul rotX rayOrigin), mat3_mul rotY (mat3_mul rotX rayDir)))"

definition stepSize :: real where
  "stepSize = 0.01"

text \<open>The windowing of lines 188 to 193.\<close>

definition window :: "uniforms \<Rightarrow> real \<Rightarrow> real" where
  "window u density =
     (let windowMin = u_windowLevel u - u_windowWidth u * 0.5;
          windowMax = u_windowLevel u + u_windowWidth u * 0.5
      in clamp ((density - windowMin) / (windowMax - windowMin)) 0 1)"

text \<open>Lines 198 to 213: the premultiplied colour of a sample above the threshold.\<close>

definition voxelColor :: "sampler2D \<Rightarrow> uniforms \<Rightarrow> vec3 \<Rightarrow> real \<Rightarrow> vec4" where
  "voxelColor tex u volCoord normalizedDensity =
     (let intensity = normalizedDensity;
          dx = sampleVolume tex u (vadd volCoord (0.01, 0, 0)) - sampleVolume tex u (vsub volCoord (0.01, 0, 0));
          dy = sampleVolume tex u (vadd volCoord (0, 0.01, 0)) - sampleVolume tex u (vsub volCoord (0, 0.01, 0));
          dz = sampleVolume tex u (vadd volCoord (0, 0, 0.01)) - sampleVolume tex u (vsub volCoord (0, 0, 0.01));
          normal = normalize3 (dx, dy, dz);
          lightDir = normalize3 (1, 1, - 1);
          diff = max (dot3 normal lightDir) 0;
          lighting = 0.3 + 0.7 * diff;
          a = intensity * u_opacity u;
          c = intensity * lighting * a
      in (c, c, c, a))"

text \<open>One pass of the body of the marching loop, from the sample position on.\<close>

definition composite :: "sampler2D \<Rightarrow> uniforms \<Rightarrow> vec3 \<Rightarrow> vec3 \<Rightarrow> real \<Rightarrow> vec4 \<Rightarrow> vec4" where
  "composite tex u rayOrigin rayDir tNear colorAccum =
     (let currentPos = vadd rayOrigin (vscale rayDir tNear);
          volCoord = vadd currentPos (0.5, 0.5, 0.5);
          density = sampleVolume tex u volCoord;
          normalizedDensity = window u density
      in if normalizedDensity > u_threshold u / 255 then
           (case voxelColor tex u volCoord normalizedDensity of (vr, vg, vb, va) \<Rightarrow>
            case colorAccum of (r, g, b, a) \<Rightarrow>
              (r + (1 - a) * vr, g + (1 - a) * vg, b + (1 - a) * vb, a + (1 - a) * va))
         else colorAccum)"

text \<open>
  \<open>tNear\<close> and \<open>colorAccum\<close> after \<open>i\<close> passes of
  \<open>for (int i = 0; i < 200; i++)\<close>; once the \<open>break\<close> is taken they stay as they are.
\<close>

primrec ray_state ::
  "sampler2D \<Rightarrow> uniforms \<Rightarrow> vec3 \<Rightarrow> vec3 \<Rightarrow> tval \<Rightarrow> real \<Rightarrow> nat \<Rightarrow> real \<times> vec4" where
  "ray_state tex u rayOrigin rayDir tFar t0 0 = (t0, (0, 0, 0, 0))"
| "ray_state tex u rayOrigin rayDir tFar t0 (Suc i) =
     (case ray_state tex u rayOrigin rayDir tFar t0 i of (tNear, colorAccum) \<Rightarrow>
        if tge (Fin tNear) tFar \<or> alpha colorAccum \<ge> 0.95 then (tNear, colorAccum)
        else (tNear + stepSize, composite tex u rayOrigin rayDir tNear colorAccum))"

text \<open>The pattern shown while no volume is loaded (\<open>u_slices <= 0.0\<close>).\<close>

definition no_volume_pattern :: "vec2 \<Rightarrow> vec4" where
  "no_volume_pattern v_texCoord =
     (case v_texCoord of (tx, ty) \<Rightarrow>
        (sin (tx * 10) * 0.5 + 0.5, cos (ty * 10) * 0.5 + 0.5, sin ((tx + ty) * 5) * 0.5 + 0.5, 1))"

text \<open>
  \<open>main\<close>: the value of \<open>gl_FragColor\<close>. After \<open>tNear = max(0.0, tNear)\<close> the start is
  finite or plus infinity (lemma \<open>clamped_start_cases\<close>); in the second case the first
  test \<open>tNear >= tFar\<close> of the loop holds (lemma \<open>infinite_start_breaks\<close>), the loop
  breaks at once and the accumulator is still zero.
\<close>

definition main :: "sampler2D \<Rightarrow> uniforms \<Rightarrow> vec2 \<Rightarrow> vec4" where
  "main tex u v_texCoord =
     (if u_slices u \<le> 0 then no_volume_pattern v_texCoord
      else
        case camera_ray u v_texCoord of (rayOrigin, rayDir) \<Rightarrow>
        case slab rayOrigin rayDir of (tNear, tFar) \<Rightarrow>
          if ray_misses (tNear, tFar) then (0, 0, 0, 0)
          else
            (case tmax (Fin 0) tNear of
               Fin t0 \<Rightarrow> clamp4 (snd (ray_state tex u rayOrigin rayDir tFar t0 200))
             | _ \<Rightarrow> clamp4 (0, 0, 0, 0)))"

section \<open>Notions of the specification\<close>






section \<open>Concrete inputs\<close>

text \<open>Two 16-bit slices of one row and two columns, with values 0, 1000 and 500, 2000.\<close>

definition slice_a :: slice where
  "slice_a = \<lparr>data = Uint16Array [0, 1000], metadata = [], rows = 1, columns = 2,
               instanceNumber = 1\<rparr>"

definition slice_b :: slice where
  "slice_b = \<lparr>data = Uint16Array [500, 2000], metadata = [], rows = 1, columns = 2,
               instanceNumber = 2\<rparr>"

text \<open>Two one-pixel slices that carry the same instance number.\<close>

definition tie_a :: slice where
  "tie_a = \<lparr>data = Uint8Array [1], metadata = [], rows = 1, columns = 1, instanceNumber = 0\<rparr>"

definition tie_b :: slice where
  "tie_b = \<lparr>data = Uint8Array [2], metadata = [], rows = 1, columns = 1, instanceNumber = 0\<rparr>"

text \<open>
  A stream of two explicit-VR elements: File Meta Information Version \<open>(0002,0001)\<close>,
  VR \<open>OB\<close>, two reserved bytes, the 4-byte length 2 and the value \<open>00 01\<close>; then Rows
  \<open>(0028,0010)\<close>, VR \<open>US\<close>, the 2-byte length 2 and the value 4.
\<close>

definition meta_version_then_rows :: "byte list" where
  "meta_version_then_rows =
     [0x02, 0x00, 0x01, 0x00, 0x4F, 0x42, 0x00, 0x00, 0x02, 0x00, 0x00, 0x00, 0x00, 0x01,
      0x28, 0x00, 0x10, 0x00, 0x55, 0x53, 0x02, 0x00, 0x04, 0x00]"

text \<open>
  A stream of three explicit-VR elements: Rows 1, Columns 2, and Pixel Data
  \<open>(7FE0,0010)\<close>, VR \<open>OW\<close>, two reserved bytes, the 4-byte length 2 and the two pixels
  7 and 9.
\<close>

definition pixel_stream :: "byte list" where
  "pixel_stream =
     [0x28, 0x00, 0x10, 0x00, 0x55, 0x53, 0x02, 0x00, 0x01, 0x00,
      0x28, 0x00, 0x11, 0x00, 0x55, 0x53, 0x02, 0x00, 0x02, 0x00,
      0xE0, 0x7F, 0x10, 0x00, 0x4F, 0x57, 0x00, 0x00, 0x02, 0x00, 0x00, 0x00, 0x07, 0x09]"

text \<open>
  A decoded file with a 16-bit slice of 512 rows and 512 columns, the usual size of a CT
  slice, and the slice made of it.
\<close>

definition ct_file_16 :: dicomData where
  "ct_file_16 = \<lparr>pd_metadata = [], pd_pixelData = Some (Uint16Array (replicate 262144 0)),
                  pd_rows = 512, pd_columns = 512\<rparr>"

definition ct_slice_16 :: slice where
  "ct_slice_16 = \<lparr>data = Uint16Array (replicate 262144 0), metadata = [], rows = 512,
                   columns = 512, instanceNumber = 0\<rparr>"

text \<open>A 16-bit slice of one pixel whose value does not fit 8 bits.\<close>

definition wide_slice :: slice where
  "wide_slice = \<lparr>data = Uint16Array [300], metadata = [], rows = 1, columns = 1,
                  instanceNumber = 5\<rparr>"

text \<open>
  A volume of five slices of one voxel each; a volume of five slices of three rows and
  four columns whose voxel at index \<open>i\<close> of the data is \<open>i\<close>; six numbers that are not all
  8-bit samples, to be packed as a volume of three slices of one row and two columns.
\<close>

definition five_slices :: volume where
  "five_slices = \<lparr>vdata = Uint8Array [10, 20, 30, 40, 50], dimensions = (1, 1, 5)\<rparr>"

definition sixty_voxels :: volume where
  "sixty_voxels = \<lparr>vdata = Uint8Array (map of_nat [0..<60]), dimensions = (4, 3, 5)\<rparr>"




text \<open>
  The uniforms that \<open>render\<close> sets while no volume is loaded, with the initial camera
  and transfer function of \<open>init\<close>; the same with the zoom at its upper limit 3; and
  the latter once a two-slice volume of one voxel per slice is loaded. A texture that is
  zero everywhere.
\<close>

definition default_uniforms :: uniforms where
  "default_uniforms = \<lparr>u_textureWidth = 1, u_textureHeight = 1, u_slices = 0, u_threshold = 100,
     u_opacity = 0.8, u_windowLevel = 128, u_windowWidth = 256, u_volumeSize = (1, 1, 1),
     u_zoom = 1, u_rotationX = 0, u_rotationY = 0\<rparr>"

definition dark_texture :: sampler2D where
  "dark_texture uv = 0"

definition zoomed_out_no_volume :: uniforms where
  "zoomed_out_no_volume = default_uniforms\<lparr>u_zoom := 3\<rparr>"

definition zoomed_out_loaded :: uniforms where
  "zoomed_out_loaded = default_uniforms\<lparr>u_zoom := 3, u_slices := 2, u_textureWidth := 2,
     u_textureHeight := 1, u_volumeSize := (1, 1, 2)\<rparr>"

text \<open>
  A texture that is 1 everywhere, as the atlas of a volume of samples 255 is, and the
  uniforms of a loaded two-slice volume with the window set to the range \<open>[0, 1]\<close> of the
  texture values (level \<open>1/2\<close>, width 1), the threshold 100 and the opacity 0.8.
\<close>

definition bright_texture :: sampler2D where
  "bright_texture uv = 1"

definition lit_uniforms :: uniforms where
  "lit_uniforms = \<lparr>u_textureWidth = 2, u_textureHeight = 1, u_slices = 2, u_threshold = 100,
     u_opacity = 0.8, u_windowLevel = 1 / 2, u_windowWidth = 1, u_volumeSize = (1, 1, 2),
     u_zoom = 1, u_rotationX = 0, u_rotationY = 0\<rparr>"

section \<open>Evaluation helpers\<close>

lemma replicate_numeral_Cons: "replicate (numeral k) x = x # replicate (pred_numeral k) x"
  by (simp add: numeral_eq_Suc)

lemma list_update_Cons_numeral: "(x # xs)[numeral k := v] = x # xs[pred_numeral k := v]"
  by (simp add: numeral_eq_Suc)

lemmas eval_list = replicate_numeral_Cons list_update_Cons_numeral upt_conv_Cons

lemma vr_OB: "fromCharCode2 79 66 = ''OB''"
  by (simp add: fromCharCode2_def char_of_def bit_0)

lemma vr_US: "fromCharCode2 85 83 = ''US''"
  by (simp add: fromCharCode2_def char_of_def bit_0)

section \<open>Normalisation of the two-slice example\<close>

lemma sort_slices_ab: "sort_slices [slice_a, slice_b] = [slice_a, slice_b]"
  by (simp add: sort_slices_def slice_a_def slice_b_def)

lemma fill_volume16_ab: "fill_volume16 2 [slice_a, slice_b] = [0, 1000, 500, 2000]"
  by (simp add: slice_a_def slice_b_def fill_volume16_def fill_slice16_def to_uint16_def eval_list)

lemma normalize16_ab: "normalize16 [0, 1000, 500, 2000] = [0, 128, 64, 255]"
  by (simp add: normalize16_def normalize_voxel_def js_round_def max_of_def min_of_def)

lemma assemble_ab:
  assumes "4 \<le> maxArgs"
  shows "assemble maxArgs [slice_a, slice_b] =
     Inr \<lparr>vdata = Uint8Array [0, 128, 64, 255], dimensions = (2, 1, 2)\<rparr>"
proof -
  have "rows slice_a = 1" "columns slice_a = 2" "data slice_a = Uint16Array [0, 1000]"
    by (simp_all add: slice_a_def)
  then show ?thesis using assms
    by (simp add: assemble_def sort_slices_ab fill_volume16_ab normalize16_ab Let_def)
qed

text \<open>
  C2, as stated: the slices \<open>{0, 1000}\<close> and \<open>{500, 2000}\<close> normalise to \<open>{0, 127}\<close> and
  \<open>{64, 255}\<close>. The code does not produce that volume: 1000 is mapped to
  \<open>Math.round(127.5)\<close>, and \<open>Math.round\<close> rounds a tie upwards. (The engine here accepts
  65536 arguments; the four voxels are within the bound of any engine.)
\<close>

theorem normalize_example_not_127:
  "assemble 65536 [slice_a, slice_b] \<noteq>
     Inr \<lparr>vdata = Uint8Array [0, 127, 64, 255], dimensions = (2, 1, 2)\<rparr>"
  by (simp add: assemble_ab)

text \<open>
  C2, amended: with the global minimum 0 and maximum 2000 the two slices normalise to
  \<open>{0, 128}\<close> and \<open>{64, 255}\<close>, on every engine that accepts the four voxels as
  arguments.
\<close>

theorem normalize_example_128:
  assumes "4 \<le> maxArgs"
  shows "assemble maxArgs [slice_a, slice_b] =
     Inr \<lparr>vdata = Uint8Array [0, 128, 64, 255], dimensions = (2, 1, 2)\<rparr>
   \<and> min_of (map unat (fill_volume16 2 [slice_a, slice_b])) = 0
   \<and> max_of (map unat (fill_volume16 2 [slice_a, slice_b])) = 2000"
  using assms by (simp add: assemble_ab fill_volume16_ab min_of_def max_of_def)

theorem normalize_example_128_witness:
  "(4 :: nat) \<le> 65536
   \<and> assemble 65536 [slice_a, slice_b] =
       Inr \<lparr>vdata = Uint8Array [0, 128, 64, 255], dimensions = (2, 1, 2)\<rparr>
   \<and> min_of (map unat (fill_volume16 2 [slice_a, slice_b])) = 0
   \<and> max_of (map unat (fill_volume16 2 [slice_a, slice_b])) = 2000"
  using normalize_example_128 [of 65536] by simp

section \<open>Order of the slices\<close>

lemma sort_slices_permutation:
  assumes "mset ss' = mset ss" and "distinct (map instanceNumber ss)"
  shows "sort_slices ss' = sort_slices ss"
proof -
  have "set ss' = set ss" using assms(1) by (rule mset_eq_setD)
  with assms(2) have inj: "inj_on instanceNumber (set ss')" by (simp add: distinct_map)
  have m: "mset ss' = mset (sort_key instanceNumber ss)" using assms(1) by simp
  have s: "sorted (map instanceNumber (sort_key instanceNumber ss))" by simp
  have "sort_key instanceNumber ss' = sort_key instanceNumber ss"
    using m inj s by (rule sort_key_inj_key_eq)
  then show ?thesis by (simp add: sort_slices_def)
qed

lemma sort_slices_ties:
  "sort_slices [tie_a, tie_b] = [tie_a, tie_b]" "sort_slices [tie_b, tie_a] = [tie_b, tie_a]"
  by (simp_all add: sort_slices_def tie_a_def tie_b_def)

lemma fill_volume8_ties:
  "fill_volume8 (Suc 0) [tie_a, tie_b] = [1, 2]" "fill_volume8 (Suc 0) [tie_b, tie_a] = [2, 1]"
  by (simp_all add: tie_a_def tie_b_def fill_volume8_def fill_slice8_def to_uint8_def eval_list)

lemma assemble_ties:
  "assemble maxArgs [tie_a, tie_b] = Inr \<lparr>vdata = Uint8Array [1, 2], dimensions = (1, 1, 2)\<rparr>"
  "assemble maxArgs [tie_b, tie_a] = Inr \<lparr>vdata = Uint8Array [2, 1], dimensions = (1, 1, 2)\<rparr>"
proof -
  have "rows tie_a = 1" "columns tie_a = 1" "data tie_a = Uint8Array [1]"
       "rows tie_b = 1" "columns tie_b = 1" "data tie_b = Uint8Array [2]"
    by (simp_all add: tie_a_def tie_b_def)
  then show
    "assemble maxArgs [tie_a, tie_b] = Inr \<lparr>vdata = Uint8Array [1, 2], dimensions = (1, 1, 2)\<rparr>"
    "assemble maxArgs [tie_b, tie_a] = Inr \<lparr>vdata = Uint8Array [2, 1], dimensions = (1, 1, 2)\<rparr>"
    by (simp_all add: assemble_def sort_slices_ties fill_volume8_ties Let_def)
qed

text \<open>
  C4, as stated: assembling any permutation of a list of valid slices gives the same
  volume. Two slices with the same instance number keep the order in which they were
  met, so swapping them swaps their voxels.
\<close>

theorem assemble_tied_slices_order_dependent:
  "mset [tie_b, tie_a] = mset [tie_a, tie_b]
   \<and> assemble 65536 [tie_b, tie_a] \<noteq> assemble 65536 [tie_a, tie_b]"
  by (simp add: assemble_ties)

text \<open>
  C4, amended: when the instance numbers of the slices are pairwise distinct, assembling
  any permutation of the list gives the same result, on every engine.
\<close>

theorem assemble_order_independent:
  assumes "mset ss' = mset ss" and "distinct (map instanceNumber ss)"
  shows "assemble maxArgs ss' = assemble maxArgs ss"
proof -
  have "length ss' = length ss" using assms(1) by (rule mset_eq_length)
  moreover have "sort_slices ss' = sort_slices ss" using assms by (rule sort_slices_permutation)
  ultimately show ?thesis by (simp add: assemble_def)
qed

theorem assemble_order_independent_witness:
  "mset [slice_b, slice_a] = mset [slice_a, slice_b]
   \<and> distinct (map instanceNumber [slice_a, slice_b])
   \<and> assemble 65536 [slice_b, slice_a] = assemble 65536 [slice_a, slice_b]
   \<and> assemble 65536 [slice_a, slice_b] =
       Inr \<lparr>vdata = Uint8Array [0, 128, 64, 255], dimensions = (2, 1, 2)\<rparr>"
proof -
  have m: "mset [slice_b, slice_a] = mset [slice_a, slice_b]" by simp
  have d: "distinct (map instanceNumber [slice_a, slice_b])"
    by (simp add: slice_a_def slice_b_def)
  from assemble_order_independent [OF m d, of 65536] m d show ?thesis
    by (simp add: assemble_ab)
qed

section \<open>The error of an empty stack\<close>

lemma collect_slices_append:
  "collect_slices (xs @ ys) = collect_slices xs @ collect_slices ys"
  by (induction xs rule: collect_slices.induct) auto

lemma collect_slices_empty_iff:
  "collect_slices parsed = [] \<longleftrightarrow> (\<forall>dd. Some dd \<in> set parsed \<longrightarrow> \<not> usable dd)"
  by (induction parsed rule: collect_slices.induct) auto

lemma assemble_result:
  "assemble maxArgs ss = Inl NoValidDicomFiles \<longleftrightarrow> ss = []"
  "ss \<noteq> [] \<Longrightarrow> (\<exists>v. assemble maxArgs ss = Inr v) \<or> assemble maxArgs ss = Inl RangeError"
  by (simp_all add: assemble_def Let_def)

text \<open>
  The error of no valid files is raised exactly when no decoded file has pixel data, rows
  and columns, and a file that could not be read or decoded, or that is not usable,
  changes nothing in the result for the other files. With a usable file the result is a
  volume or the \<open>RangeError\<close> of the spread calls.
\<close>

lemma no_valid_files_error_iff:
  "processParsed maxArgs parsed = Inl NoValidDicomFiles
     \<longleftrightarrow> (\<forall>dd. Some dd \<in> set parsed \<longrightarrow> \<not> usable dd)"
  by (simp add: processParsed_def assemble_result(1) collect_slices_empty_iff)

lemma unusable_file_skipped:
  assumes "bad = None \<or> (\<exists>dd. bad = Some dd \<and> \<not> usable dd)"
  shows "processParsed maxArgs (before @ bad # after) = processParsed maxArgs (before @ after)"
proof -
  from assms have "collect_slices [bad] = []" by auto
  then have "collect_slices (before @ [bad] @ after) = collect_slices (before @ after)"
    by (simp only: collect_slices_append append_Nil)
  then show ?thesis by (simp add: processParsed_def)
qed

lemma usable_file_result:
  assumes "Some dd \<in> set parsed" "usable dd"
  shows "(\<exists>v. processParsed maxArgs parsed = Inr v) \<or> processParsed maxArgs parsed = Inl RangeError"
proof -
  from assms have "collect_slices parsed \<noteq> []" by (auto simp: collect_slices_empty_iff)
  then show ?thesis unfolding processParsed_def by (rule assemble_result(2))
qed

section \<open>Long-form elements\<close>

text \<open>
  What the two branches of the header decoder do, for every buffer: a long-form element
  has its value at offset 10 (length 0) or 14 from the tag, never at 12; a short-form
  element has its 2-byte length at offset 6 and its value at offset 8.
\<close>

lemma long_form_value_offset:
  assumes "read_header buf offset = Some h" "eh_vr h \<in> set long_vrs"
  shows "(getUint32 buf (offset + 6) = Some 0 \<and> eh_length h = 0 \<and> eh_valueOffset h = offset + 10)
       \<or> (getUint32 buf (offset + 10) = Some (eh_length h) \<and> eh_valueOffset h = offset + 14)"
  using assms by (auto simp: read_header_def Let_def add.assoc split: bind_splits if_splits)

lemma short_form_header:
  assumes "read_header buf offset = Some h" "eh_vr h \<notin> set long_vrs"
  shows "getUint16 buf (offset + 6) = Some (eh_length h) \<and> eh_valueOffset h = offset + 8"
  using assms by (auto simp: read_header_def Let_def add.assoc split: bind_splits if_splits)

lemma header_meta_version:
  "read_header meta_version_then_rows 0 =
     Some \<lparr>eh_tag = ''00020001'', eh_vr = ''OB'', eh_length = 16777216, eh_valueOffset = 14\<rparr>"
  by (simp add: read_header_def meta_version_then_rows_def getUint16_def getUint8_def
      getUint32_def hex4_def hex_digit_def vr_OB long_vrs_def Let_def)

lemma parse_element_meta_version:
  "parse_element meta_version_then_rows 0 st = Some (16777230, st)"
  by (simp add: parse_element_def header_meta_version apply_element_def next_offset_def Let_def)

lemma length_meta_version_then_rows: "length meta_version_then_rows = 24"
  by (simp add: meta_version_then_rows_def)

lemma header_rows:
  "read_header (drop 14 meta_version_then_rows) 0 =
     Some \<lparr>eh_tag = ''00280010'', eh_vr = ''US'', eh_length = 2, eh_valueOffset = 8\<rparr>"
  by (simp add: read_header_def meta_version_then_rows_def getUint16_def getUint8_def
      hex4_def hex_digit_def vr_US long_vrs_def Let_def)

lemma parse_element_rows:
  "parse_element (drop 14 meta_version_then_rows) 0
     \<lparr>ps_metadata = [], ps_pixelData = None, ps_rows = 0, ps_columns = 0\<rparr> =
   Some (10, \<lparr>ps_metadata = [(''00280010'', 4)], ps_pixelData = None, ps_rows = 4,
              ps_columns = 0\<rparr>)"
  by (simp add: parse_element_def header_rows apply_element_def next_offset_def Let_def)
     (simp add: meta_version_then_rows_def getUint16_def)

text \<open>
  C5 at a two-element stream. The first element has a long-form VR: after the VR come two
  reserved bytes and the length 2 at offset 8, so its value starts at offset 12 and the
  next element at offset 14. The decoder instead reads the length 16777216 at offset 10
  and puts the value at offset 14, so that the Rows element behind it is never decoded,
  although the same Rows element alone is decoded to 4.
\<close>

theorem long_form_header_misread:
  "getUint32 meta_version_then_rows 8 = Some 2
   \<and> read_header meta_version_then_rows 0 =
       Some \<lparr>eh_tag = ''00020001'', eh_vr = ''OB'', eh_length = 16777216,
              eh_valueOffset = 14\<rparr>
   \<and> pd_rows (parseDicom meta_version_then_rows) = 0
   \<and> pd_rows (parseDicom (drop 14 meta_version_then_rows)) = 4"
proof -
  have "getUint32 meta_version_then_rows 8 = Some 2"
    by (simp add: getUint32_def meta_version_then_rows_def)
  moreover have "pd_rows (parseDicom meta_version_then_rows) = 0"
    by (simp add: parseDicom_def has_magic_def parse_loop.simps parse_element_meta_version
        length_meta_version_then_rows)
  moreover have "pd_rows (parseDicom (drop 14 meta_version_then_rows)) = 4"
    by (simp add: parseDicom_def has_magic_def parse_loop.simps parse_element_rows
        length_meta_version_then_rows)
  ultimately show ?thesis using header_meta_version by simp
qed

section \<open>Loops that store into an array\<close>

text \<open>
  A loop whose passes store \<open>g a\<close> at index \<open>f a\<close>: when the indices are distinct,
  every pass leaves its value, and the other elements keep theirs.
\<close>

lemma fold_update_length: "length (fold (\<lambda>a t. t[f a := g a]) xs t) = length t"
  by (induction xs arbitrary: t) auto

lemma fold_update_other:
  "i \<notin> f ` set xs \<Longrightarrow> fold (\<lambda>a t. t[f a := g a]) xs t ! i = t ! i"
  by (induction xs arbitrary: t) auto

lemma fold_update_hit:
  "distinct (map f xs) \<Longrightarrow> a \<in> set xs \<Longrightarrow> f a < length t
     \<Longrightarrow> fold (\<lambda>a t. t[f a := g a]) xs t ! f a = g a"
proof (induction xs arbitrary: t)
  case Nil
  then show ?case by simp
next
  case (Cons b bs)
  show ?case
  proof (cases "a = b")
    case True
    with Cons.prems have "f a \<notin> f ` set bs" by auto
    then have "fold (\<lambda>a t. t[f a := g a]) bs (t[f b := g b]) ! f a = t[f b := g b] ! f a"
      by (rule fold_update_other)
    with True Cons.prems show ?thesis by simp
  next
    case False
    with Cons.prems have "a \<in> set bs" "distinct (map f bs)" "f a < length (t[f b := g b])"
      by auto
    from Cons.IH [OF this(2) this(1) this(3)] show ?thesis by simp
  qed
qed

lemma fold_nested_product:
  "fold (\<lambda>a. fold (h a) ys) xs = fold (\<lambda>p. h (fst p) (snd p)) (List.product xs ys)"
  by (induction xs) (simp_all add: fold_map comp_def)

section \<open>The tile grid\<close>

lemma ceil_sqrt_from_props:
  "n \<le> ceil_sqrt_from d n \<and> d \<le> ceil_sqrt_from d n * ceil_sqrt_from d n
   \<and> (\<forall>m. n \<le> m \<and> m < ceil_sqrt_from d n \<longrightarrow> m * m < d)"
proof (induction d n rule: ceil_sqrt_from.induct)
  case (1 d n)
  show ?case
  proof (cases "d \<le> n * n")
    case True
    then have "ceil_sqrt_from d n = n" by (simp add: ceil_sqrt_from.simps [of d n])
    with True show ?thesis by simp
  next
    case False
    then have eq: "ceil_sqrt_from d n = ceil_sqrt_from d (Suc n)"
      by (simp add: ceil_sqrt_from.simps [of d n])
    have ih: "Suc n \<le> ceil_sqrt_from d (Suc n)"
      "d \<le> ceil_sqrt_from d (Suc n) * ceil_sqrt_from d (Suc n)"
      "\<And>m. Suc n \<le> m \<Longrightarrow> m < ceil_sqrt_from d (Suc n) \<Longrightarrow> m * m < d"
      using 1 [OF False] by blast+
    have "m * m < d" if "n \<le> m" "m < ceil_sqrt_from d (Suc n)" for m
    proof (cases "m = n")
      case True
      with False show ?thesis by simp
    next
      case False
      with that have "Suc n \<le> m" by simp
      then show ?thesis using that(2) by (rule ih(3))
    qed
    with ih(1,2) show ?thesis unfolding eq by auto
  qed
qed

lemma ceil_sqrt_props:
  "d \<le> ceil_sqrt d * ceil_sqrt d" "m < ceil_sqrt d \<Longrightarrow> m * m < d"
  using ceil_sqrt_from_props [of 0 d] by (simp_all add: ceil_sqrt_def)

lemma ceil_sqrt_pos: "0 < d \<Longrightarrow> 0 < ceil_sqrt d"
  using ceil_sqrt_props(1) [of d] by (cases "ceil_sqrt d") auto

lemma ceil_sqrt_eqI:
  assumes "d \<le> n * n" and "\<And>m. m < n \<Longrightarrow> m * m < d"
  shows "ceil_sqrt d = n"
proof (rule antisym)
  show "ceil_sqrt d \<le> n"
  proof (rule ccontr)
    assume "\<not> ceil_sqrt d \<le> n"
    then have "n * n < d" using ceil_sqrt_props(2) [of n d] by simp
    with assms(1) show False by simp
  qed
  show "n \<le> ceil_sqrt d"
  proof (rule ccontr)
    assume "\<not> n \<le> ceil_sqrt d"
    then have "ceil_sqrt d * ceil_sqrt d < d" using assms(2) by simp
    with ceil_sqrt_props(1) [of d] show False by simp
  qed
qed

lemma ceil_sqrt_real: "ceil_sqrt d = nat \<lceil>sqrt (real d)\<rceil>"
proof -
  let ?k = "ceil_sqrt d"
  have up: "sqrt (real d) \<le> real ?k"
  proof -
    have "real d \<le> real ?k * real ?k"
      using ceil_sqrt_props(1) [of d] by (metis of_nat_le_iff of_nat_mult)
    then have "sqrt (real d) \<le> sqrt (real ?k * real ?k)" by (rule real_sqrt_le_mono)
    then show ?thesis by simp
  qed
  have lo: "real ?k - 1 < sqrt (real d)"
  proof (cases "?k")
    case 0
    have "0 \<le> sqrt (real d)" by simp
    with 0 show ?thesis by linarith
  next
    case (Suc j)
    then have "j * j < d" using ceil_sqrt_props(2) [of j d] by simp
    then have "real j * real j < real d" by (metis of_nat_less_iff of_nat_mult)
    then have "sqrt (real j * real j) < sqrt (real d)" by (rule real_sqrt_less_mono)
    with Suc show ?thesis by simp
  qed
  have "\<lceil>sqrt (real d)\<rceil> = int ?k"
    by (rule ceiling_unique) (use lo up in simp_all)
  then show ?thesis by simp
qed

lemma rows_cover:
  assumes "0 < s"
  shows "d \<le> s * nat \<lceil>real d / real s\<rceil>"
proof -
  define c where "c = \<lceil>real d / real s\<rceil>"
  have 1: "real d / real s \<le> real_of_int c" unfolding c_def by (rule le_of_int_ceiling)
  have "0 \<le> real d / real s" by simp
  then have "- 1 < real d / real s" by linarith
  then have nonneg: "0 \<le> c" unfolding c_def by (simp only: zero_le_ceiling)
  have 2: "real d \<le> real_of_int c * real s"
    using 1 assms by (simp add: pos_divide_le_eq)
  have 3: "real_of_int c = real (nat c)" using nonneg by simp
  have "real d \<le> real (s * nat c)" using 2 unfolding 3 by (simp add: mult.commute)
  then have "d \<le> s * nat c" by (simp only: of_nat_le_iff)
  then show ?thesis by (simp only: c_def)
qed

subsection \<open>Index arithmetic of the tiling\<close>

lemma div_mod_tile:
  fixes a b n :: nat
  assumes "b < n"
  shows "(a * n + b) div n = a" and "(a * n + b) mod n = b"
  using assms by simp_all

lemma tile_x_bound:
  fixes s x w z :: nat
  assumes "0 < s" "x < w"
  shows "(z mod s) * w + x < s * w"
proof -
  have "z mod s < s" using assms(1) by simp
  then have "Suc (z mod s) \<le> s" by simp
  then have "Suc (z mod s) * w \<le> s * w" by (rule mult_le_mono1)
  moreover have "(z mod s) * w + x < Suc (z mod s) * w" using assms(2) by simp
  ultimately show ?thesis by simp
qed

lemma tex_index_split:
  assumes "0 < s" "x < w"
  shows "tex_index w h s z y x mod (s * w) = (z mod s) * w + x"
    and "tex_index w h s z y x div (s * w) = (z div s) * h + y"
  using tile_x_bound [OF assms, of z]
  by (simp_all add: tex_index_def Let_def div_mod_tile del: mult_Suc_right)

lemma pixel_voxel_atlas_pixel:
  assumes "0 < s" "x < w" "y < h"
  shows "pixel_voxel w h s (atlas_pixel w h s (x, y, z)) = (x, y, z)"
  using assms by (simp add: pixel_voxel_def atlas_pixel_def)

lemma atlas_pixel_pixel_voxel:
  assumes "0 < w" "0 < h" "px < s * w"
  shows "atlas_pixel w h s (pixel_voxel w h s (px, py)) = (px, py)"
proof -
  have "px div w < s" using assms by (simp add: less_mult_imp_div_less mult.commute)
  then show ?thesis using assms by (simp add: pixel_voxel_def atlas_pixel_def)
qed

lemma fill_texture_flat:
  "fill_texture vol w h d s t =
     fold (\<lambda>q t. t[tex_index w h s (fst q) (fst (snd q)) (snd (snd q)) :=
                    texel_value (number_at vol (volume_index w h (fst q) (fst (snd q)) (snd (snd q))))])
          (List.product [0..<d] (List.product [0..<h] [0..<w])) t"
  by (simp add: fill_texture_def fold_nested_product pack_texel_def [abs_def])


lemma tex_index_inj:
  assumes "0 < s"
  shows "inj_on (\<lambda>q. tex_index w h s (fst q) (fst (snd q)) (snd (snd q)))
           (set (List.product [0..<d] (List.product [0..<h] [0..<w])))"
proof (rule inj_on_inverseI)
  fix q assume "q \<in> set (List.product [0..<d] (List.product [0..<h] [0..<w]))"
  then obtain z y x where q: "q = (z, y, x)" and b: "x < w" "y < h" by auto
  let ?i = "tex_index w h s z y x"
  have "pixel_voxel w h s (?i mod (s * w), ?i div (s * w)) = (x, y, z)"
    using tex_index_split [OF assms b(1), of h z y] pixel_voxel_atlas_pixel [OF assms b, of z]
    by (simp add: atlas_pixel_def)
  then show "(\<lambda>i. case pixel_voxel w h s (i mod (s * w), i div (s * w)) of (x, y, z) \<Rightarrow> (z, y, x))
               (tex_index w h s (fst q) (fst (snd q)) (snd (snd q))) = q"
    by (simp add: q)
qed

lemma fill_texture_hit:
  assumes "0 < s" "x < w" "y < h" "z < d" "tex_index w h s z y x < length t"
  shows "fill_texture vol w h d s t ! tex_index w h s z y x =
           texel_value (number_at vol (volume_index w h z y x))"
proof -
  let ?f = "\<lambda>q. tex_index w h s (fst q) (fst (snd q)) (snd (snd q))"
  let ?g = "\<lambda>q. texel_value (number_at vol (volume_index w h (fst q) (fst (snd q)) (snd (snd q))))"
  let ?qs = "List.product [0..<d] (List.product [0..<h] [0..<w])"
  have d: "distinct (map ?f ?qs)"
    using tex_index_inj [OF assms(1), of w h d] by (simp add: distinct_map distinct_product)
  have m: "(z, y, x) \<in> set ?qs" using assms by simp
  have l: "?f (z, y, x) < length t" using assms(5) by simp
  from fold_update_hit [of ?f ?qs "(z, y, x)" t ?g, OF d m l]
  show ?thesis by (simp add: fill_texture_flat)
qed


lemma tex_index_bound:
  assumes "0 < s" "x < w" "y < h" "z < s * r"
  shows "tex_index w h s z y x < (s * w) * (r * h)"
proof -
  have "z div s < r" using assms(1,4) by (simp add: less_mult_imp_div_less mult.commute)
  then have "Suc (z div s) * h \<le> r * h" by (simp only: Suc_le_eq[symmetric] mult_le_mono1)
  moreover have "(z div s) * h + y < Suc (z div s) * h" using assms(3) by simp
  ultimately have Y: "(z div s) * h + y < r * h" by simp
  have X: "(z mod s) * w + x < s * w" using assms(1,2) by (rule tile_x_bound)
  have "((z div s) * h + y) * (s * w) + ((z mod s) * w + x) < Suc ((z div s) * h + y) * (s * w)"
    using X by simp
  also have "\<dots> \<le> (r * h) * (s * w)" using Y by (simp only: Suc_le_eq[symmetric] mult_le_mono1)
  finally show ?thesis by (simp add: tex_index_def Let_def mult.commute)
qed

lemma texel_value_byte: "texel_value (Some (real (unat (b :: 8 word)))) = b"
proof -
  have r: "js_round (real (unat b)) = uint b"
    unfolding js_round_def by (simp add: floor_unique)
  have "uint b < 256" using uint_lt2p [of b] by simp
  then have "max 0 (min 255 (uint b)) = uint b" by simp
  then show ?thesis by (simp only: texel_value_def option.case r word_of_int_uint)
qed

lemma layout_loadVolume:
  assumes "0 < d"
  shows "textureLayout (loadVolume (w, h, d) vol) =
     \<lparr>tl_width = ceil_sqrt d * w, tl_height = Some (nat \<lceil>real d / real (ceil_sqrt d)\<rceil> * h),
      tl_slices = d, tl_volumeSize = (w, h, d)\<rparr>"
  using ceil_sqrt_pos [OF assms] by (simp add: loadVolume_def Let_def)


lemma textureData_loadVolume:
  assumes "0 < d"
  shows "textureData (loadVolume (w, h, d) vol) =
     fill_texture vol w h d (ceil_sqrt d)
       (replicate ((ceil_sqrt d * w) * (nat \<lceil>real d / real (ceil_sqrt d)\<rceil> * h)) 0)"
  using ceil_sqrt_pos [OF assms] by (simp add: loadVolume_def Let_def)


lemma atlas_at_voxel:
  assumes "x < w" "y < h" "z < d"
  shows "atlas_at (loadVolume (w, h, d) vol) (atlas_pixel w h (ceil_sqrt d) (x, y, z)) =
           texel_value (number_at vol (volume_index w h z y x))"
proof -
  let ?s = "ceil_sqrt d" and ?r = "nat \<lceil>real d / real (ceil_sqrt d)\<rceil>"
  have d: "0 < d" using assms(3) by simp
  have s: "0 < ?s" using d by (rule ceil_sqrt_pos)
  have "z < ?s * ?r" using assms(3) rows_cover [OF s, of d] by simp
  with s assms have b: "tex_index w h ?s z y x < (?s * w) * (?r * h)" by (simp add: tex_index_bound)
  have "atlas_at (loadVolume (w, h, d) vol) (atlas_pixel w h ?s (x, y, z)) =
          textureData (loadVolume (w, h, d) vol) ! tex_index w h ?s z y x"
    by (simp add: atlas_at_def layout_loadVolume [OF d] atlas_pixel_def tex_index_def Let_def)
  also have "\<dots> = texel_value (number_at vol (volume_index w h z y x))"
    using fill_texture_hit [OF s assms, of "replicate ((?s * w) * (?r * h)) 0" vol] b
    by (simp add: textureData_loadVolume [OF d])
  finally show ?thesis .
qed




section \<open>The atlas of a volume\<close>

lemma ceil_sqrt_5: "ceil_sqrt 5 = 3"
proof (rule ceil_sqrt_eqI)
  show "(5::nat) \<le> 3 * 3" by simp
  fix m :: nat assume "m < 3"
  then have "m = 0 \<or> m = 1 \<or> m = 2" by auto
  then show "m * m < 5" by auto
qed

lemma volume_index_bound:
  assumes "x < w" "y < h" "z < d"
  shows "volume_index w h z y x < w * h * d"
proof -
  have "Suc y * w \<le> h * w" using assms(2) by (simp only: Suc_le_eq[symmetric] mult_le_mono1)
  moreover have "y * w + x < Suc y * w" using assms(1) by simp
  ultimately have yx: "y * w + x < w * h" by (simp add: mult.commute)
  have "z * (w * h) + (y * w + x) < Suc z * (w * h)" using yx by simp
  also have "\<dots> \<le> d * (w * h)" using assms(3) by (simp only: Suc_le_eq[symmetric] mult_le_mono1)
  finally show ?thesis by (simp add: volume_index_def mult.commute mult.left_commute add.assoc)
qed

text \<open>
  The index of the source is the one of the volume data in the order \<open>x\<close> fastest, then
  \<open>y\<close>, then \<open>z\<close>.
\<close>

lemma volume_index_layout: "volume_index w h z y x = x + w * (y + h * z)"
  by (simp add: volume_index_def algebra_simps)

lemma five_slices_fields:
  "vdata five_slices = Uint8Array [10, 20, 30, 40, 50]" "dimensions five_slices = (1, 1, 5)"
  by (simp_all add: five_slices_def)

lemma sixty_voxels_fields:
  "vdata sixty_voxels = Uint8Array (map of_nat [0..<60])" "dimensions sixty_voxels = (4, 3, 5)"
  by (simp_all add: sixty_voxels_def)

lemma loadAssembled_bytes:
  assumes "vdata v = Uint8Array bytes" "dimensions v = (w, h, d)"
  shows "loadAssembled v = loadVolume (w, h, d) (map (\<lambda>b. real (unat b)) bytes)"
  using assms by (simp add: loadAssembled_def)

lemma atlas_at_byte:
  assumes "x < w" "y < h" "z < d" "length bytes = w * h * d"
  shows "atlas_at (loadVolume (w, h, d) (map (\<lambda>b. real (unat b)) bytes))
           ((z mod ceil_sqrt d) * w + x, (z div ceil_sqrt d) * h + y)
         = bytes ! (x + w * (y + h * z))"
proof -
  let ?vol = "map (\<lambda>b. real (unat b)) bytes"
  have "volume_index w h z y x < length bytes"
    using volume_index_bound [OF assms(1-3)] assms(4) by simp
  then have "number_at ?vol (volume_index w h z y x)
               = Some (real (unat (bytes ! volume_index w h z y x)))"
    by (simp add: number_at_def)
  then have "atlas_at (loadVolume (w, h, d) ?vol) (atlas_pixel w h (ceil_sqrt d) (x, y, z))
               = bytes ! volume_index w h z y x"
    unfolding atlas_at_voxel [OF assms(1-3)] by (simp only: texel_value_byte)
  then show ?thesis by (simp add: atlas_pixel_def volume_index_layout)
qed

text \<open>
  C1, as stated: the tiling is a bijection, and inverse-mapping every atlas pixel recovers
  the value of a voxel. For five slices of one voxel the atlas has \<open>3 \<times> 2\<close> pixels. The
  pixel \<open>(2, 1)\<close> is one of them; the inverse mapping sends it to the slice index 5, which
  no voxel has, and no voxel is stored at it.
\<close>

theorem atlas_pixel_without_voxel:
  "tl_width (textureLayout (loadAssembled five_slices)) = 3
   \<and> tl_height (textureLayout (loadAssembled five_slices)) = Some 2
   \<and> pixel_voxel 1 1 (ceil_sqrt 5) (2, 1) = (0, 0, 5)
   \<and> (2, 1) \<notin> atlas_pixel 1 1 (ceil_sqrt 5) ` {(x, y, z). x < 1 \<and> y < 1 \<and> z < 5}"
proof -
  have "(2, 1) \<noteq> atlas_pixel 1 1 3 (x, y, z)" if "x < 1" "y < 1" "z < 5" for x y z :: nat
  proof
    assume e: "(2, 1) = atlas_pixel 1 1 3 (x, y, z)"
    then have "pixel_voxel 1 1 3 (2, 1) = pixel_voxel 1 1 3 (atlas_pixel 1 1 3 (x, y, z))" by simp
    then have "z = 5" using that(1,2) by (simp add: pixel_voxel_def atlas_pixel_def)
    with that show False by simp
  qed
  then have "(2, 1) \<notin> atlas_pixel 1 1 3 ` {(x, y, z). x < 1 \<and> y < 1 \<and> z < 5}" by auto
  then show ?thesis
    by (simp add: loadAssembled_def five_slices_fields layout_loadVolume ceil_sqrt_5
        pixel_voxel_def)
qed

text \<open>
  C1, amended: for a volume of positive width, height and depth whose data are the
  \<open>width * height * depth\<close> 8-bit samples \<open>bytes\<close>, in the order \<open>x\<close> fastest, then \<open>y\<close>,
  then \<open>z\<close>, packing with \<open>tileCountPerRow = ceil(sqrt(depth))\<close> and
  \<open>tileRows = ceil(depth / tileCountPerRow)\<close> stores the value of each voxel
  \<open>(x, y, z)\<close> at the atlas pixel \<open>(tileCol(z) * width + x, tileRow(z) * height + y)\<close>,
  which lies in the atlas and from which the inverse mapping gives back \<open>(x, y, z)\<close>, so
  that two voxels never share a pixel. Every atlas pixel whose tile index
  \<open>(py div height) * tileCountPerRow + px div width\<close> is below the depth is the pixel of
  the voxel that the inverse mapping gives, and holds the value of that voxel.
\<close>

theorem pack_bijective_tiling:
  assumes "0 < w" "0 < h" "0 < d"
    and "vdata v = Uint8Array bytes" "dimensions v = (w, h, d)" "length bytes = w * h * d"
  shows "ceil_sqrt d = nat \<lceil>sqrt (real d)\<rceil>
    \<and> tl_width (textureLayout (loadAssembled v)) = ceil_sqrt d * w
    \<and> tl_height (textureLayout (loadAssembled v)) = Some (nat \<lceil>real d / real (ceil_sqrt d)\<rceil> * h)
    \<and> (\<forall>x y z. x < w \<and> y < h \<and> z < d \<longrightarrow>
          atlas_at (loadAssembled v) ((z mod ceil_sqrt d) * w + x, (z div ceil_sqrt d) * h + y)
            = bytes ! (x + w * (y + h * z))
          \<and> (z mod ceil_sqrt d) * w + x < ceil_sqrt d * w
          \<and> (z div ceil_sqrt d) * h + y < nat \<lceil>real d / real (ceil_sqrt d)\<rceil> * h
          \<and> pixel_voxel w h (ceil_sqrt d)
               ((z mod ceil_sqrt d) * w + x, (z div ceil_sqrt d) * h + y) = (x, y, z))
    \<and> (\<forall>px py. px < ceil_sqrt d * w \<and> py < nat \<lceil>real d / real (ceil_sqrt d)\<rceil> * h
            \<and> (py div h) * ceil_sqrt d + px div w < d \<longrightarrow>
          pixel_voxel w h (ceil_sqrt d) (px, py)
            = (px mod w, py mod h, (py div h) * ceil_sqrt d + px div w)
          \<and> atlas_pixel w h (ceil_sqrt d) (pixel_voxel w h (ceil_sqrt d) (px, py)) = (px, py)
          \<and> atlas_at (loadAssembled v) (px, py)
              = bytes ! (px mod w + w * (py mod h + h * ((py div h) * ceil_sqrt d + px div w))))"
proof -
  let ?s = "ceil_sqrt d"
  let ?r = "nat \<lceil>real d / real (ceil_sqrt d)\<rceil>"
  let ?vol = "map (\<lambda>b. real (unat b)) bytes"
  have lv: "loadAssembled v = loadVolume (w, h, d) ?vol"
    using assms(4,5) by (rule loadAssembled_bytes)
  have s: "0 < ?s" using assms(3) by (rule ceil_sqrt_pos)
  have voxel: "atlas_at (loadAssembled v) ((z mod ?s) * w + x, (z div ?s) * h + y)
                 = bytes ! (x + w * (y + h * z))"
    if "x < w" "y < h" "z < d" for x y z
    unfolding lv using that assms(6) by (rule atlas_at_byte)
  have inside: "(z mod ?s) * w + x < ?s * w \<and> (z div ?s) * h + y < ?r * h"
    if "x < w" "y < h" "z < d" for x y z
  proof -
    have "z < ?s * ?r" using that(3) rows_cover [OF s, of d] by simp
    then have "z div ?s < ?r" using s by (simp add: less_mult_imp_div_less mult.commute)
    then have "Suc (z div ?s) * h \<le> ?r * h" by (simp only: Suc_le_eq[symmetric] mult_le_mono1)
    moreover have "(z div ?s) * h + y < Suc (z div ?s) * h" using that(2) by simp
    ultimately have "(z div ?s) * h + y < ?r * h" by simp
    then show ?thesis using tile_x_bound [OF s that(1), of z] by simp
  qed
  have inv: "pixel_voxel w h ?s ((z mod ?s) * w + x, (z div ?s) * h + y) = (x, y, z)"
    if "x < w" "y < h" for x y z
    using pixel_voxel_atlas_pixel [OF s that, of z] by (simp add: atlas_pixel_def)
  have bk: "pixel_voxel w h ?s (px, py) = (px mod w, py mod h, (py div h) * ?s + px div w)
             \<and> atlas_pixel w h ?s (pixel_voxel w h ?s (px, py)) = (px, py)
             \<and> atlas_at (loadAssembled v) (px, py)
                 = bytes ! (px mod w + w * (py mod h + h * ((py div h) * ?s + px div w)))"
    if "px < ?s * w" "(py div h) * ?s + px div w < d" for px py
  proof -
    let ?z = "(py div h) * ?s + px div w"
    have p: "pixel_voxel w h ?s (px, py) = (px mod w, py mod h, ?z)" by (simp add: pixel_voxel_def)
    have a: "atlas_pixel w h ?s (px mod w, py mod h, ?z) = (px, py)"
      using atlas_pixel_pixel_voxel [OF assms(1,2) that(1), of py] p by simp
    then have e: "(?z mod ?s) * w + px mod w = px" "(?z div ?s) * h + py mod h = py"
      by (simp_all add: atlas_pixel_def)
    have b: "px mod w < w" "py mod h < h" using assms(1,2) by simp_all
    from voxel [OF b that(2)] show ?thesis unfolding e p a by simp
  qed
  have wd: "tl_width (textureLayout (loadAssembled v)) = ?s * w"
    "tl_height (textureLayout (loadAssembled v)) = Some (?r * h)"
    by (simp_all add: lv layout_loadVolume [OF assms(3)])
  have A: "\<forall>x y z. x < w \<and> y < h \<and> z < d \<longrightarrow>
          atlas_at (loadAssembled v) ((z mod ?s) * w + x, (z div ?s) * h + y)
            = bytes ! (x + w * (y + h * z))
          \<and> (z mod ?s) * w + x < ?s * w
          \<and> (z div ?s) * h + y < ?r * h
          \<and> pixel_voxel w h ?s ((z mod ?s) * w + x, (z div ?s) * h + y) = (x, y, z)"
    using voxel inside inv by blast
  have B: "\<forall>px py. px < ?s * w \<and> py < ?r * h \<and> (py div h) * ?s + px div w < d \<longrightarrow>
          pixel_voxel w h ?s (px, py) = (px mod w, py mod h, (py div h) * ?s + px div w)
          \<and> atlas_pixel w h ?s (pixel_voxel w h ?s (px, py)) = (px, py)
          \<and> atlas_at (loadAssembled v) (px, py)
              = bytes ! (px mod w + w * (py mod h + h * ((py div h) * ?s + px div w)))"
    using bk by blast
  show ?thesis
    by (intro conjI) (rule ceil_sqrt_real wd A B)+
qed

theorem pack_bijective_tiling_witness:
  "(0::nat) < 4 \<and> (0::nat) < 3 \<and> (0::nat) < 5
   \<and> vdata sixty_voxels = Uint8Array (map of_nat [0..<60])
   \<and> dimensions sixty_voxels = (4, 3, 5) \<and> length (map of_nat [0..<60] :: 8 word list) = 4 * 3 * 5
   \<and> ceil_sqrt 5 = 3
   \<and> tl_width (textureLayout (loadAssembled sixty_voxels)) = 12
   \<and> tl_height (textureLayout (loadAssembled sixty_voxels)) = Some 6
   \<and> atlas_at (loadAssembled sixty_voxels) (5, 5) = 57
   \<and> pixel_voxel 4 3 3 (5, 5) = (1, 2, 4)
   \<and> atlas_at (loadAssembled sixty_voxels) (9, 1) = 29
   \<and> atlas_at (loadAssembled sixty_voxels) (1, 0) = 1
   \<and> atlas_at (loadAssembled sixty_voxels) (0, 1) = 4"
proof -
  have l: "length (map of_nat [0..<60] :: 8 word list) = 4 * 3 * 5" by simp
  have p: "(0::nat) < 4" "(0::nat) < 3" "(0::nat) < 5" by simp_all
  note t = pack_bijective_tiling [OF p sixty_voxels_fields l, unfolded ceil_sqrt_5]
  have r: "nat \<lceil>real 5 / real 3\<rceil> = 2"
    by simp
  from t have w: "tl_width (textureLayout (loadAssembled sixty_voxels)) = 12"
    and h: "tl_height (textureLayout (loadAssembled sixty_voxels)) = Some 6"
    by (simp_all add: r)
  from t have v: "x < 4 \<and> y < 3 \<and> z < 5 \<Longrightarrow>
      atlas_at (loadAssembled sixty_voxels) ((z mod 3) * 4 + x, (z div 3) * 3 + y)
        = map of_nat [0..<60] ! (x + 4 * (y + 3 * z))
      \<and> pixel_voxel 4 3 3 ((z mod 3) * 4 + x, (z div 3) * 3 + y) = (x, y, z)" for x y z
    by blast
  from t have b: "px < 3 * 4 \<and> py < nat \<lceil>real 5 / real 3\<rceil> * 3 \<and> (py div 3) * 3 + px div 4 < 5 \<Longrightarrow>
      atlas_at (loadAssembled sixty_voxels) (px, py)
        = map of_nat [0..<60] ! (px mod 4 + 4 * (py mod 3 + 3 * ((py div 3) * 3 + px div 4)))" for px py
    by blast
  from v [of 1 2 4] have a1: "atlas_at (loadAssembled sixty_voxels) (5, 5) = 57"
    "pixel_voxel 4 3 3 (5, 5) = (1, 2, 4)" by simp_all
  from b [of 9 1] have a2: "atlas_at (loadAssembled sixty_voxels) (9, 1) = 29" by (simp add: r)
  from v [of 1 0 0] have a3: "atlas_at (loadAssembled sixty_voxels) (1, 0) = 1" by simp
  from v [of 0 1 0] have a4: "atlas_at (loadAssembled sixty_voxels) (0, 1) = 4" by simp
  show ?thesis using w h a1 a2 a3 a4 by (simp add: sixty_voxels_fields ceil_sqrt_5)
qed

section \<open>The texture of the atlas\<close>



























section \<open>When the volume is normalised\<close>

lemma fill_volume16_flat:
  "fill_volume16 S ss =
     fold (\<lambda>q t. t[fst q * S + snd q := to_uint16 (array_get (data (ss ! fst q)) (snd q))])
          (List.product [0..<length ss] [0..<S]) (replicate (S * length ss) 0)"
  by (simp add: fill_volume16_def fill_slice16_def [abs_def] fold_nested_product)

lemma fill_volume8_flat:
  "fill_volume8 S ss =
     fold (\<lambda>q t. t[fst q * S + snd q := to_uint8 (array_get (data (ss ! fst q)) (snd q))])
          (List.product [0..<length ss] [0..<S]) (replicate (S * length ss) 0)"
  by (simp add: fill_volume8_def fill_slice8_def [abs_def] fold_nested_product)

lemma slice_index_distinct:
  "distinct (map (\<lambda>q. fst q * S + snd q) (List.product [0..<n] [0..<S]))"
proof -
  have "inj_on (\<lambda>q. fst q * S + snd q) (set (List.product [0..<n] [0..<S]))"
  proof (rule inj_on_inverseI)
    fix q :: "nat \<times> nat" assume "q \<in> set (List.product [0..<n] [0..<S])"
    then have "snd q < S" by auto
    then show "(\<lambda>i. (i div S, i mod S)) (fst q * S + snd q) = q"
      by (simp add: div_mod_tile prod_eq_iff)
  qed
  then show ?thesis by (simp add: distinct_map distinct_product)
qed

lemma slice_index_bound:
  fixes z i S n :: nat
  assumes "z < n" "i < S"
  shows "z * S + i < S * n"
proof -
  have "z * S + i < Suc z * S" using assms(2) by simp
  also have "\<dots> \<le> n * S" using assms(1) by (simp only: Suc_le_eq[symmetric] mult_le_mono1)
  finally show ?thesis by (simp add: mult.commute)
qed

lemma fill_volume16_nth:
  assumes "z < length ss" "i < S"
  shows "fill_volume16 S ss ! (z * S + i) = to_uint16 (array_get (data (ss ! z)) i)"
proof -
  let ?f = "\<lambda>q :: nat \<times> nat. fst q * S + snd q"
  let ?g = "\<lambda>q :: nat \<times> nat. to_uint16 (array_get (data (ss ! fst q)) (snd q))"
  have m: "(z, i) \<in> set (List.product [0..<length ss] [0..<S])" using assms by simp
  have l: "?f (z, i) < length (replicate (S * length ss) (0 :: 16 word))"
    using slice_index_bound [OF assms] by simp
  from fold_update_hit [of ?f _ "(z, i)" _ ?g, OF slice_index_distinct m l]
  show ?thesis by (simp add: fill_volume16_flat)
qed

lemma fill_volume8_nth:
  assumes "z < length ss" "i < S"
  shows "fill_volume8 S ss ! (z * S + i) = to_uint8 (array_get (data (ss ! z)) i)"
proof -
  let ?f = "\<lambda>q :: nat \<times> nat. fst q * S + snd q"
  let ?g = "\<lambda>q :: nat \<times> nat. to_uint8 (array_get (data (ss ! fst q)) (snd q))"
  have m: "(z, i) \<in> set (List.product [0..<length ss] [0..<S])" using assms by simp
  have l: "?f (z, i) < length (replicate (S * length ss) (0 :: 8 word))"
    using slice_index_bound [OF assms] by simp
  from fold_update_hit [of ?f _ "(z, i)" _ ?g, OF slice_index_distinct m l]
  show ?thesis by (simp add: fill_volume8_flat)
qed

lemma length_fill_volume:
  "length (fill_volume16 S ss) = S * length ss" "length (fill_volume8 S ss) = S * length ss"
  by (simp_all add: fill_volume16_flat fill_volume8_flat fold_update_length)

lemma max_of_Max: "xs \<noteq> [] \<Longrightarrow> max_of xs = Max (set xs)"
proof (cases xs)
  case Nil
  assume "xs \<noteq> []"
  with Nil show ?thesis by simp
next
  case (Cons a list)
  then show ?thesis using Max.set_eq_fold [of a list] by (simp add: max_of_def)
qed

lemma min_of_Min: "xs \<noteq> [] \<Longrightarrow> min_of xs = Min (set xs)"
proof (cases xs)
  case Nil
  assume "xs \<noteq> []"
  with Nil show ?thesis by simp
next
  case (Cons a list)
  then show ?thesis using Min.set_eq_fold [of a list] by (simp add: min_of_def)
qed

lemma normalize16_global:
  "normalize16 vol =
     map (\<lambda>v. normalize_voxel (Min (unat ` set vol))
                 (if Max (unat ` set vol) - Min (unat ` set vol) = 0 then 1
                  else Max (unat ` set vol) - Min (unat ` set vol)) (unat v)) vol"
proof (cases "vol = []")
  case True
  then show ?thesis by (simp add: normalize16_def)
next
  case False
  then have "map unat vol \<noteq> []" by simp
  then have "max_of (map unat vol) = Max (unat ` set vol)" "min_of (map unat vol) = Min (unat ` set vol)"
    by (simp_all add: max_of_Max min_of_Min)
  then show ?thesis by (simp add: normalize16_def Let_def comp_def)
qed

lemma sort_wide: "sort_slices [wide_slice, tie_a] = [tie_a, wide_slice]"
  by (simp add: sort_slices_def wide_slice_def tie_a_def)

lemma tie_a_fields: "rows tie_a = 1" "columns tie_a = 1" "data tie_a = Uint8Array [1]"
  by (simp_all add: tie_a_def)

text \<open>
  What the assembly does with a non-empty list, by the array type of the first slice in
  sorted order. If that array is 8-bit, the volume is what the fill loops stored into
  the 8-bit buffer, each element converted to 8 bits and nothing normalised, whatever
  the later slices carry. If it is 16-bit and the buffer has no more elements than the
  engine accepts as arguments, every voxel \<open>v\<close> of the 16-bit buffer becomes
  \<open>\<lfloor>(v - min) / range * 255 + 1/2\<rfloor>\<close> with the minimum and maximum taken over all voxels
  as stored. If it is 16-bit and the buffer is longer, the load ends with \<open>RangeError\<close>.
\<close>

lemma assemble_by_first_sorted_slice:
  assumes "ss \<noteq> []"
  shows "let sorted = sort_slices ss; first = sorted ! 0;
             S = rows first * columns first; n = length ss;
             dims = (columns first, rows first, n) in
     (\<not> instanceof_Uint16Array (data first) \<longrightarrow>
        assemble maxArgs ss = Inr \<lparr>vdata = Uint8Array (fill_volume8 S sorted), dimensions = dims\<rparr>
        \<and> length (fill_volume8 S sorted) = S * n
        \<and> (\<forall>z i. z < n \<and> i < S \<longrightarrow>
              fill_volume8 S sorted ! (z * S + i) = to_uint8 (array_get (data (sorted ! z)) i)))
   \<and> (instanceof_Uint16Array (data first) \<and> maxArgs < S * n \<longrightarrow>
        assemble maxArgs ss = Inl RangeError)
   \<and> (instanceof_Uint16Array (data first) \<and> S * n \<le> maxArgs \<longrightarrow>
        (let stored = fill_volume16 S sorted;
             minVal = Min (unat ` set stored); maxVal = Max (unat ` set stored);
             rng = (if maxVal - minVal = 0 then 1 else maxVal - minVal) in
         assemble maxArgs ss =
           Inr \<lparr>vdata = Uint8Array
                   (map (\<lambda>v. of_int \<lfloor>(real (unat v) - real minVal) / real rng * 255 + 1 / 2\<rfloor>)
                      stored),
                dimensions = dims\<rparr>
         \<and> length stored = S * n
         \<and> (\<forall>z i. z < n \<and> i < S \<longrightarrow>
               stored ! (z * S + i) = to_uint16 (array_get (data (sorted ! z)) i))))"
proof -
  let ?sorted = "sort_slices ss"
  let ?S = "rows (?sorted ! 0) * columns (?sorted ! 0)"
  have n: "length ?sorted = length ss" by (simp add: sort_slices_def)
  have a8: "assemble maxArgs ss = Inr \<lparr>vdata = Uint8Array (fill_volume8 ?S ?sorted),
              dimensions = (columns (?sorted ! 0), rows (?sorted ! 0), length ss)\<rparr>"
    if "\<not> instanceof_Uint16Array (data (?sorted ! 0))"
    using assms that by (simp add: assemble_def Let_def n)
  have ar: "assemble maxArgs ss = Inl RangeError"
    if "instanceof_Uint16Array (data (?sorted ! 0)) \<and> maxArgs < ?S * length ss"
    using assms that by (simp add: assemble_def Let_def n)
  have a16: "assemble maxArgs ss = Inr \<lparr>vdata = Uint8Array (normalize16 (fill_volume16 ?S ?sorted)),
              dimensions = (columns (?sorted ! 0), rows (?sorted ! 0), length ss)\<rparr>"
    if "instanceof_Uint16Array (data (?sorted ! 0)) \<and> ?S * length ss \<le> maxArgs"
    using assms that by (simp add: assemble_def Let_def n not_less)
  have l: "length (fill_volume8 ?S ?sorted) = ?S * length ss"
    "length (fill_volume16 ?S ?sorted) = ?S * length ss"
    by (simp_all only: length_fill_volume n)
  have e8: "fill_volume8 ?S ?sorted ! (z * ?S + i) = to_uint8 (array_get (data (?sorted ! z)) i)"
    if "z < length ss \<and> i < ?S" for z i
    using that by (simp only: fill_volume8_nth n)
  have e16: "fill_volume16 ?S ?sorted ! (z * ?S + i) = to_uint16 (array_get (data (?sorted ! z)) i)"
    if "z < length ss \<and> i < ?S" for z i
    using that by (simp only: fill_volume16_nth n)
  note a16' = a16 [unfolded normalize16_global normalize_voxel_def js_round_def]
  show ?thesis
    unfolding Let_def
    by (intro conjI impI allI) (erule a8 | erule ar | erule a16' | erule e8 | erule e16 | rule l)+
qed

lemma assemble_wide_after_tie:
  "assemble maxArgs [wide_slice, tie_a] = Inr \<lparr>vdata = Uint8Array [1, 44], dimensions = (1, 1, 2)\<rparr>"
proof -
  have "fill_volume8 (Suc 0) [tie_a, wide_slice] = [1, 44]"
    by (simp add: tie_a_def wide_slice_def fill_volume8_def fill_slice8_def to_uint8_def
        eval_list)
  then show ?thesis by (simp add: assemble_def Let_def sort_wide tie_a_fields)
qed

lemma assemble_ct_slice_16: "assemble 65536 [ct_slice_16] = Inl RangeError"
  by (simp add: assemble_def Let_def sort_slices_def ct_slice_16_def)

text \<open>
  C9 at one 16-bit slice of 512 rows and 512 columns, on an engine that accepts 65536
  arguments. The first slice in sorted order is 16-bit, so the claim has the whole
  buffer normalised with its global minimum and maximum. The code gets as far as
  \<open>Math.max(...volumeData)\<close>, which is given the 262144 voxels as arguments and raises
  \<open>RangeError\<close>: there is no normalised volume.
\<close>

theorem normalization_raises_on_ct_slice:
  "instanceof_Uint16Array (data (sort_slices [ct_slice_16] ! 0))
   \<and> rows ct_slice_16 * columns ct_slice_16 * length [ct_slice_16] = 262144
   \<and> assemble 65536 [ct_slice_16] = Inl RangeError"
  by (simp add: assemble_ct_slice_16) (simp add: sort_slices_def ct_slice_16_def)

section \<open>The marching loop\<close>

lemma window_range: "0 \<le> window u density \<and> window u density \<le> 1"
  by (simp add: window_def clamp_def Let_def)

lemma alpha_voxelColor: "alpha (voxelColor tex u volCoord nd) = nd * u_opacity u"
  by (simp add: voxelColor_def alpha_def Let_def)

lemma composite_alpha:
  assumes "0 \<le> u_opacity u" "u_opacity u \<le> 1" "0 \<le> alpha acc" "alpha acc \<le> 1"
  shows "alpha acc \<le> alpha (composite tex u ro rd t acc)"
    and "alpha (composite tex u ro rd t acc) \<le> 1"
proof -
  obtain r g b a where acc: "acc = (r, g, b, a)" by (cases acc)
  with assms have a: "0 \<le> a" "a \<le> 1" by (simp_all add: alpha_def)
  define volCoord where "volCoord = vadd (vadd ro (vscale rd t)) (0.5, 0.5, 0.5)"
  define nd where "nd = window u (sampleVolume tex u volCoord)"
  obtain vr vg vb va where vc: "voxelColor tex u volCoord nd = (vr, vg, vb, va)"
    by (cases "voxelColor tex u volCoord nd")
  have "va = nd * u_opacity u" using alpha_voxelColor [of tex u volCoord nd] vc by (simp add: alpha_def)
  moreover have "0 \<le> nd" "nd \<le> 1" using window_range [of u] by (simp_all add: nd_def)
  ultimately have va: "0 \<le> va" "va \<le> 1"
    using assms(1,2) by (simp_all add: mult_le_one)
  have c: "alpha (composite tex u ro rd t acc) = (if nd > u_threshold u / 255 then a + (1 - a) * va else a)"
    unfolding composite_def Let_def volCoord_def [symmetric] nd_def [symmetric]
    by (simp add: vc acc alpha_def)
  have "0 \<le> (1 - a) * va" using a va by simp
  moreover have "(1 - a) * va \<le> (1 - a) * 1" using a va by (intro mult_left_mono) simp_all
  ultimately show "alpha acc \<le> alpha (composite tex u ro rd t acc)"
    and "alpha (composite tex u ro rd t acc) \<le> 1"
    using a unfolding c by (simp_all add: acc alpha_def)
qed

lemma ray_state_alpha_range:
  assumes "0 \<le> u_opacity u" "u_opacity u \<le> 1"
  shows "0 \<le> alpha (snd (ray_state tex u ro rd tFar t0 i))
       \<and> alpha (snd (ray_state tex u ro rd tFar t0 i)) \<le> 1"
proof (induction i)
  case 0
  show ?case by (simp add: alpha_def)
next
  case (Suc i)
  obtain t acc where s: "ray_state tex u ro rd tFar t0 i = (t, acc)"
    by (cases "ray_state tex u ro rd tFar t0 i")
  with Suc have r: "0 \<le> alpha acc" "alpha acc \<le> 1" by simp_all
  from composite_alpha [OF assms r, of tex ro rd t] r
  show ?case by (auto simp: s)
qed

text \<open>
  A ray through a texture that is 1 everywhere, with the window \<open>[0, 1]\<close>, the threshold
  100 and the opacity 0.8: every sample is above the threshold and has alpha \<open>4/5\<close>, so
  the accumulated alpha is \<open>4/5\<close> after the first pass and \<open>24/25\<close> after the second,
  and the third pass leaves the loop.
\<close>

lemma sampleVolume_bright: "sampleVolume bright_texture u p = 1"
proof -
  obtain px py pz where p: "p = (px, py, pz)" by (cases p)
  obtain vx vy vz where v: "u_volumeSize u = (vx, vy, vz)" by (cases "u_volumeSize u")
  show ?thesis
    unfolding sampleVolume_def p v prod.case Let_def bright_texture_def mix_def
    by simp
qed

lemma composite_alpha_bright:
  "alpha (composite bright_texture lit_uniforms ro rd t acc) = alpha acc + (1 - alpha acc) * (4 / 5)"
proof -
  obtain r g b a where acc: "acc = (r, g, b, a)" by (cases acc)
  define volCoord where "volCoord = vadd (vadd ro (vscale rd t)) (0.5, 0.5, 0.5)"
  have w: "window lit_uniforms 1 = 1" by (simp add: window_def lit_uniforms_def clamp_def)
  have th: "u_threshold lit_uniforms / 255 < 1" by (simp add: lit_uniforms_def)
  obtain vr vg vb va where vc: "voxelColor bright_texture lit_uniforms volCoord 1 = (vr, vg, vb, va)"
    by (cases "voxelColor bright_texture lit_uniforms volCoord 1")
  have "va = 1 * u_opacity lit_uniforms"
    using alpha_voxelColor [of bright_texture lit_uniforms volCoord 1] vc by (simp add: alpha_def)
  then have va: "va = 4 / 5" by (simp add: lit_uniforms_def)
  show ?thesis
    unfolding composite_def Let_def volCoord_def [symmetric] sampleVolume_bright w
    using th by (simp add: vc acc alpha_def va)
qed

lemma ray_step:
  assumes "ray_state tex u ro rd tFar t0 i = (t, acc)" "\<not> tge (Fin t) tFar" "alpha acc < 0.95"
  shows "ray_state tex u ro rd tFar t0 (Suc i) = (t + stepSize, composite tex u ro rd t acc)"
  using assms by simp

lemma ray_stop:
  assumes "ray_state tex u ro rd tFar t0 i = (t, acc)" "alpha acc \<ge> 0.95"
  shows "ray_state tex u ro rd tFar t0 (Suc i) = (t, acc)"
  using assms by simp

lemma bright_ray_alphas:
  "alpha (snd (ray_state bright_texture lit_uniforms ro rd (Fin (5 / 2)) (3 / 2) 0)) = 0"
  "alpha (snd (ray_state bright_texture lit_uniforms ro rd (Fin (5 / 2)) (3 / 2) 1)) = 4 / 5"
  "alpha (snd (ray_state bright_texture lit_uniforms ro rd (Fin (5 / 2)) (3 / 2) 2)) = 24 / 25"
  "alpha (snd (ray_state bright_texture lit_uniforms ro rd (Fin (5 / 2)) (3 / 2) 3)) = 24 / 25"
proof -
  let ?rs = "ray_state bright_texture lit_uniforms ro rd (Fin (5 / 2)) (3 / 2)"
  let ?c = "composite bright_texture lit_uniforms ro rd"
  have s0: "?rs 0 = (3 / 2, (0, 0, 0, 0))" by simp
  have a0: "alpha (0, 0, 0, 0) = 0" by (simp add: alpha_def)
  have s1: "?rs (Suc 0) = (3 / 2 + stepSize, ?c (3 / 2) (0, 0, 0, 0))"
    using s0 by (rule ray_step) (simp_all add: a0)
  have a1: "alpha (?c (3 / 2) (0, 0, 0, 0)) = 4 / 5"
    unfolding composite_alpha_bright a0 by simp
  have s2: "?rs (Suc (Suc 0)) = (3 / 2 + stepSize + stepSize, ?c (3 / 2 + stepSize) (?c (3 / 2) (0, 0, 0, 0)))"
    using s1 by (rule ray_step) (simp_all add: a1 stepSize_def)
  have a2: "alpha (?c (3 / 2 + stepSize) (?c (3 / 2) (0, 0, 0, 0))) = 24 / 25"
    by (simp add: composite_alpha_bright a0)
  have s3: "?rs (Suc (Suc (Suc 0))) = (3 / 2 + stepSize + stepSize, ?c (3 / 2 + stepSize) (?c (3 / 2) (0, 0, 0, 0)))"
    using s2 by (rule ray_stop) (simp add: a2)
  have n: "(1::nat) = Suc 0" "(2::nat) = Suc (Suc 0)" "(3::nat) = Suc (Suc (Suc 0))" by simp_all
  show "alpha (snd (?rs 0)) = 0" by (simp add: a0)
  show "alpha (snd (?rs 1)) = 4 / 5" unfolding n s1 snd_conv by (rule a1)
  show "alpha (snd (?rs 2)) = 24 / 25" unfolding n s2 snd_conv by (rule a2)
  show "alpha (snd (?rs 3)) = 24 / 25" unfolding n s3 snd_conv by (rule a2)
qed


text \<open>
  C7: with the opacity in \<open>[0, 1]\<close> (the windowed density is in \<open>[0, 1]\<close> by its
  clamp), the alpha of the accumulator after \<open>i\<close> passes of the marching loop is at
  most the alpha after \<open>i + 1\<close> passes, and it never exceeds 1.
\<close>

theorem accumulated_alpha_monotone_bounded:
  assumes "0 \<le> u_opacity u" "u_opacity u \<le> 1"
  shows "alpha (snd (ray_state tex u ro rd tFar t0 i))
           \<le> alpha (snd (ray_state tex u ro rd tFar t0 (Suc i)))
       \<and> alpha (snd (ray_state tex u ro rd tFar t0 i)) \<le> 1
       \<and> (\<forall>density. 0 \<le> window u density \<and> window u density \<le> 1)"
proof -
  obtain t acc where s: "ray_state tex u ro rd tFar t0 i = (t, acc)"
    by (cases "ray_state tex u ro rd tFar t0 i")
  from ray_state_alpha_range [OF assms, of tex ro rd tFar t0 i] s
  have r: "0 \<le> alpha acc" "alpha acc \<le> 1" by simp_all
  from composite_alpha(1) [OF assms r, of tex ro rd t] r window_range
  show ?thesis by (auto simp: s)
qed

theorem accumulated_alpha_monotone_bounded_witness:
  "(0::real) \<le> u_opacity lit_uniforms \<and> u_opacity lit_uniforms \<le> 1
   \<and> alpha (snd (ray_state bright_texture lit_uniforms (0, 0, - 2) (0, 0, 1) (Fin (5 / 2)) (3 / 2) 0)) = 0
   \<and> alpha (snd (ray_state bright_texture lit_uniforms (0, 0, - 2) (0, 0, 1) (Fin (5 / 2)) (3 / 2) 1)) = 4 / 5
   \<and> alpha (snd (ray_state bright_texture lit_uniforms (0, 0, - 2) (0, 0, 1) (Fin (5 / 2)) (3 / 2) 2)) = 24 / 25
   \<and> alpha (snd (ray_state bright_texture lit_uniforms (0, 0, - 2) (0, 0, 1) (Fin (5 / 2)) (3 / 2) 3)) = 24 / 25
   \<and> alpha (snd (ray_state bright_texture lit_uniforms (0, 0, - 2) (0, 0, 1) (Fin (5 / 2)) (3 / 2) 1))
       \<le> alpha (snd (ray_state bright_texture lit_uniforms (0, 0, - 2) (0, 0, 1) (Fin (5 / 2)) (3 / 2) (Suc 1)))
   \<and> alpha (snd (ray_state bright_texture lit_uniforms (0, 0, - 2) (0, 0, 1) (Fin (5 / 2)) (3 / 2) (Suc 1))) \<le> 1"
proof -
  have o: "(0::real) \<le> u_opacity lit_uniforms" "u_opacity lit_uniforms \<le> 1"
    by (simp_all add: lit_uniforms_def)
  note t1 = accumulated_alpha_monotone_bounded [OF o, of bright_texture "(0, 0, - 2)" "(0, 0, 1)"
      "Fin (5 / 2)" "3 / 2" 1]
  note t2 = accumulated_alpha_monotone_bounded [OF o, of bright_texture "(0, 0, - 2)" "(0, 0, 1)"
      "Fin (5 / 2)" "3 / 2" "Suc 1"]
  from t1 t2 o bright_ray_alphas [of "(0, 0, - 2)" "(0, 0, 1)"] show ?thesis by blast
qed

section \<open>Rays that miss the box\<close>

lemma tmin_NaN: "tmin a b = NaN \<Longrightarrow> a = NaN"
  by (cases a; cases b) (simp_all add: tmin_def split: if_splits)

lemma tmax_NaN: "tmax a b = NaN \<Longrightarrow> a = NaN"
  by (cases a; cases b) (simp_all add: tmax_def split: if_splits)

lemma tmin_NaN_left: "tmin NaN b = NaN"
  by (cases b) (simp_all add: tmin_def)

lemma tmax_NaN_left: "tmax NaN b = NaN"
  by (cases b) (simp_all add: tmax_def)

lemma near_NaN_of_far_NaN:
  assumes "tmin (tmin (tmax a b) c) e = NaN"
  shows "tmax (tmax (tmin a b) c') e' = NaN"
proof -
  from assms have "tmin (tmax a b) c = NaN" by (rule tmin_NaN)
  then have "tmax a b = NaN" by (rule tmin_NaN)
  then have "a = NaN" by (rule tmax_NaN)
  then show ?thesis by (simp add: tmin_NaN_left tmax_NaN_left)
qed

lemma slab_far_number:
  assumes "slab rayOrigin rayDir = (tNear, tFar)" "tmax (Fin 0) tNear = PosInf"
  shows "tFar \<noteq> NaN"
proof
  assume n: "tFar = NaN"
  obtain ox oy oz where o: "rayOrigin = (ox, oy, oz)" by (cases rayOrigin)
  obtain dx dy dz where d: "rayDir = (dx, dy, dz)" by (cases rayDir)
  from assms(1) have
    "tNear = tmax (tmax (tmin (tdiv (- 0.5 - ox) dx) (tdiv (0.5 - ox) dx))
                        (tmin (tdiv (- 0.5 - oy) dy) (tdiv (0.5 - oy) dy)))
                  (tmin (tdiv (- 0.5 - oz) dz) (tdiv (0.5 - oz) dz))"
    "tFar = tmin (tmin (tmax (tdiv (- 0.5 - ox) dx) (tdiv (0.5 - ox) dx))
                       (tmax (tdiv (- 0.5 - oy) dy) (tdiv (0.5 - oy) dy)))
                 (tmax (tdiv (- 0.5 - oz) dz) (tdiv (0.5 - oz) dz))"
    unfolding slab_def o d Let_def prod.case prod.inject by auto
  with n have "tNear = NaN" by (simp only: near_NaN_of_far_NaN)
  with assms(2) show False by (simp add: tmax_def)
qed

lemma clamped_start_cases: "tmax (Fin 0) t \<noteq> NaN \<and> tmax (Fin 0) t \<noteq> NegInf"
  by (cases t) (simp_all add: tmax_def)

lemma infinite_start_breaks:
  assumes "slab rayOrigin rayDir = (tNear, tFar)" "tmax (Fin 0) tNear = PosInf"
  shows "tge PosInf tFar"
  using slab_far_number [OF assms] by (cases tFar) simp_all

lemma camera_ray_zoomed_out:
  "camera_ray zoomed_out_no_volume (0, 0) = ((- (3 / 2), - (3 / 2), - 6), (0, 0, 1))"
  "camera_ray zoomed_out_loaded (0, 0) = ((- (3 / 2), - (3 / 2), - 6), (0, 0, 1))"
  by (simp_all add: camera_ray_def zoomed_out_no_volume_def zoomed_out_loaded_def
      default_uniforms_def mat3_mul_def vadd_def vscale_def Let_def)

lemma slab_zoomed_out: "slab (- (3 / 2), - (3 / 2), - 6) (0, 0, 1) = (PosInf, Fin (13 / 2))"
  by (simp add: slab_def tdiv_def tmin_def tmax_def Let_def)

text \<open>
  While no volume is loaded, \<open>render\<close> sets \<open>u_slices\<close> to 0 and the shader returns its
  test pattern before it looks at the ray.
\<close>

lemma no_volume_pattern_shown:
  "main dark_texture zoomed_out_no_volume (0, 0) = (1 / 2, 1, 1 / 2, 1)"
proof -
  have "u_slices zoomed_out_no_volume = 0"
    by (simp add: zoomed_out_no_volume_def default_uniforms_def)
  then show ?thesis by (simp add: main_def no_volume_pattern_def)
qed

text \<open>
  C6: the ray integrator runs on a loaded volume, for which \<open>render\<close> sets \<open>u_slices\<close>
  to the positive number of slices. When the slab distances of the ray of a pixel give
  \<open>tNear > tFar\<close> or \<open>tFar < 0\<close>, all four channels of the pixel are 0, whatever the
  texture holds: the volume is not sampled.
\<close>

theorem miss_gives_transparent:
  assumes "0 < u_slices u"
    and "ray_misses (slab (fst (camera_ray u v_texCoord)) (snd (camera_ray u v_texCoord)))"
  shows "main tex u v_texCoord = (0, 0, 0, 0)"
proof -
  obtain rayOrigin rayDir where c: "camera_ray u v_texCoord = (rayOrigin, rayDir)"
    by (cases "camera_ray u v_texCoord")
  obtain tNear tFar where t: "slab rayOrigin rayDir = (tNear, tFar)"
    by (cases "slab rayOrigin rayDir")
  from assms(2) have "ray_misses (tNear, tFar)" by (simp add: c t)
  with assms(1) show ?thesis by (simp add: main_def c t)
qed

theorem miss_gives_transparent_witness:
  "0 < u_slices zoomed_out_loaded
   \<and> slab (fst (camera_ray zoomed_out_loaded (0, 0))) (snd (camera_ray zoomed_out_loaded (0, 0)))
       = (PosInf, Fin (13 / 2))
   \<and> ray_misses (slab (fst (camera_ray zoomed_out_loaded (0, 0)))
                      (snd (camera_ray zoomed_out_loaded (0, 0))))
   \<and> main dark_texture zoomed_out_loaded (0, 0) = (0, 0, 0, 0)
   \<and> main bright_texture zoomed_out_loaded (0, 0) = (0, 0, 0, 0)"
proof -
  have s: "0 < u_slices zoomed_out_loaded"
    by (simp add: zoomed_out_loaded_def default_uniforms_def)
  have m: "ray_misses (slab (fst (camera_ray zoomed_out_loaded (0, 0)))
                           (snd (camera_ray zoomed_out_loaded (0, 0))))"
    using ray_misses_def [of "(PosInf, Fin (13 / 2))"]
    by (simp add: camera_ray_zoomed_out slab_zoomed_out)
  have sl: "slab (fst (camera_ray zoomed_out_loaded (0, 0))) (snd (camera_ray zoomed_out_loaded (0, 0)))
       = (PosInf, Fin (13 / 2))"
    by (simp add: camera_ray_zoomed_out slab_zoomed_out)
  from miss_gives_transparent [OF s m, of dark_texture]
    miss_gives_transparent [OF s m, of bright_texture] s m sl
  show ?thesis by simp
qed

section \<open>Sampling at the ends of the stack\<close>

lemma clamp_range: "0.001 \<le> clamp x 0.001 0.999 \<and> clamp x 0.001 0.999 \<le> 0.999"
  by (simp add: clamp_def)













text \<open>
  The clamp of \<open>x\<close> and \<open>y\<close> to \<open>[0.001, 0.999]\<close> keeps the fetch half a texel inside
  the tile as soon as the slices are 500 voxels wide and high.
\<close>

lemma margin_large_tile:
  assumes "500 \<le> w"
  shows "1 / 2 \<le> clamp x 0.001 0.999 * real w" "clamp x 0.001 0.999 * real w \<le> real w - 1 / 2"
proof -
  define c where "c = clamp x 0.001 0.999"
  have c: "1 / 1000 \<le> c" "c \<le> 999 / 1000"
    using clamp_range [of x] by (simp_all add: c_def)
  have w: "500 \<le> real w" using assms by simp
  have "1 / 1000 * 500 \<le> c * real w"
    using c(1) w by (intro mult_mono) simp_all
  then show "1 / 2 \<le> clamp x 0.001 0.999 * real w" unfolding c_def by simp
  have "c * real w \<le> 999 / 1000 * real w"
    using c(2) by (intro mult_right_mono) simp_all
  with w have "c * real w \<le> real w - 1 / 2" by linarith
  then show "clamp x 0.001 0.999 * real w \<le> real w - 1 / 2" unfolding c_def .
qed











section \<open>The pixel data tag\<close>

text \<open>
  The tag is built from lower-case hexadecimal digits and compared with the upper-case
  \<open>'7FE00010'\<close>, so the pixel data branch is never taken: no decoded file has pixel
  data, and \<open>processDicomFolder\<close> ends with the error for every list of files.
\<close>

lemma hex_digit_lower: "hex_digit n \<in> set ''0123456789abcdef''"
  unfolding hex_digit_def by (rule nth_mem) simp

lemma hex_digit_not_F: "hex_digit n \<noteq> CHR ''F''"
  using hex_digit_lower [of n] by auto

lemma tag_not_pixel_data: "hex4 g @ hex4 e \<noteq> ''7FE00010''"
  using hex_digit_not_F [of "g div 256"] by (simp add: hex4_def)

lemma read_header_tag: "read_header buf offset = Some h \<Longrightarrow> eh_tag h \<noteq> ''7FE00010''"
  by (auto simp: read_header_def Let_def tag_not_pixel_data split: bind_splits if_splits)

lemma apply_element_keeps_no_pixels:
  assumes "apply_element buf h st = Some st'" "eh_tag h \<noteq> ''7FE00010''"
  shows "ps_pixelData st' = ps_pixelData st"
  using assms by (auto simp: apply_element_def Let_def split: bind_splits if_splits)

lemma parse_element_keeps_no_pixels:
  assumes "parse_element buf offset st = Some (offset', st')"
  shows "ps_pixelData st' = ps_pixelData st"
proof -
  from assms obtain h where h: "read_header buf offset = Some h" "apply_element buf h st = Some st'"
    by (auto simp: parse_element_def split: bind_splits)
  from h(2) read_header_tag [OF h(1)] show ?thesis by (rule apply_element_keeps_no_pixels)
qed

lemma parse_loop_keeps_no_pixels: "ps_pixelData (parse_loop buf offset st) = ps_pixelData st"
proof (induction buf offset st rule: parse_loop.induct)
  case (1 buf offset st)
  show ?case
  proof (cases "offset + 8 < length buf")
    case False
    then show ?thesis by (simp add: parse_loop.simps [of buf offset st])
  next
    case True
    show ?thesis
    proof (cases "parse_element buf offset st")
      case None
      with True show ?thesis by (simp add: parse_loop.simps [of buf offset st])
    next
      case (Some p)
      obtain offset' st' where p: "p = (offset', st')" by (cases p)
      from 1 [OF True Some p [symmetric]] parse_element_keeps_no_pixels [of buf offset st offset' st']
      show ?thesis using True Some p by (simp add: parse_loop.simps [of buf offset st])
    qed
  qed
qed

lemma parseDicom_no_pixelData: "pd_pixelData (parseDicom buf) = None"
  by (simp add: parseDicom_def Let_def parse_loop_keeps_no_pixels)

lemma collect_parsed_empty: "collect_slices (map (map_option parseDicom) files) = []"
proof (induction files)
  case Nil
  show ?case by simp
next
  case (Cons f fs)
  then show ?case by (cases f) (simp_all add: usable_def parseDicom_no_pixelData)
qed

lemma processDicomFolder_fails: "processDicomFolder maxArgs files = Inl NoValidDicomFiles"
  by (simp add: processDicomFolder_def processParsed_def collect_parsed_empty assemble_def)

lemma vr_OW: "fromCharCode2 79 87 = ''OW''"
  by (simp add: fromCharCode2_def char_of_def bit_0)

lemma length_pixel_stream: "length pixel_stream = 34"
  by (simp add: pixel_stream_def)

lemma header_pixel_stream:
  "read_header pixel_stream 0 =
     Some \<lparr>eh_tag = ''00280010'', eh_vr = ''US'', eh_length = 2, eh_valueOffset = 8\<rparr>"
  "read_header pixel_stream 10 =
     Some \<lparr>eh_tag = ''00280011'', eh_vr = ''US'', eh_length = 2, eh_valueOffset = 18\<rparr>"
  "read_header pixel_stream 20 =
     Some \<lparr>eh_tag = ''7fe00010'', eh_vr = ''OW'', eh_length = 151453696, eh_valueOffset = 34\<rparr>"
  by (simp_all add: read_header_def pixel_stream_def getUint16_def getUint8_def getUint32_def
      hex4_def hex_digit_def vr_US vr_OW long_vrs_def Let_def)

lemma parse_element_pixel_stream:
  "parse_element pixel_stream 0
     \<lparr>ps_metadata = [], ps_pixelData = None, ps_rows = 0, ps_columns = 0\<rparr> =
   Some (10, \<lparr>ps_metadata = [(''00280010'', 1)], ps_pixelData = None, ps_rows = 1,
              ps_columns = 0\<rparr>)"
  "parse_element pixel_stream 10
     \<lparr>ps_metadata = [(''00280010'', 1)], ps_pixelData = None, ps_rows = Suc 0,
      ps_columns = 0\<rparr> =
   Some (20, \<lparr>ps_metadata = [(''00280010'', 1), (''00280011'', 2)], ps_pixelData = None,
              ps_rows = Suc 0, ps_columns = 2\<rparr>)"
  "parse_element pixel_stream 20 st = Some (151453730, st)"
  by (simp_all add: parse_element_def header_pixel_stream apply_element_def next_offset_def
      Let_def)
     (simp_all add: pixel_stream_def getUint16_def)

lemma parseDicom_pixel_stream:
  "parseDicom pixel_stream =
     \<lparr>pd_metadata = [(''00280010'', 1), (''00280011'', 2)], pd_pixelData = None, pd_rows = 1,
      pd_columns = 2\<rparr>"
  by (simp add: parseDicom_def has_magic_def parse_loop.simps parse_element_pixel_stream
      length_pixel_stream)

lemma processParsed_ct_file_16: "processParsed 65536 [Some ct_file_16] = Inl RangeError"
proof -
  have "usable ct_file_16" by (simp add: usable_def ct_file_16_def)
  then have "collect_slices [Some ct_file_16] = [ct_slice_16]"
    by (simp add: ct_file_16_def ct_slice_16_def instance_of_def)
  then show ?thesis by (simp add: processParsed_def assemble_ct_slice_16)
qed

text \<open>
  C8 at two inputs. The first is a file that carries Rows, Columns and Pixel Data: the
  claim keeps its slice and has a volume returned. The decoder reads the tag of the
  third element as \<open>7fe00010\<close>, which is not the \<open>7FE00010\<close> it looks for, so the decoded
  file has its rows and columns and no pixel data, the slice is dropped and the load ends
  with the error of no valid files. The second is a decoded file with a 16-bit slice of
  512 rows and 512 columns, on an engine that accepts 65536 arguments: the slice is
  valid and remains, and the load ends with \<open>RangeError\<close>, which is neither the error of
  the claim nor a volume.
\<close>

theorem valid_slice_without_volume:
  "getUint32 pixel_stream 28 = Some 2
   \<and> read_header pixel_stream 20 =
       Some \<lparr>eh_tag = ''7fe00010'', eh_vr = ''OW'', eh_length = 151453696, eh_valueOffset = 34\<rparr>
   \<and> pd_rows (parseDicom pixel_stream) = 1
   \<and> pd_columns (parseDicom pixel_stream) = 2
   \<and> pd_pixelData (parseDicom pixel_stream) = None
   \<and> processDicomFolder 65536 [Some pixel_stream] = Inl NoValidDicomFiles
   \<and> usable ct_file_16
   \<and> processParsed 65536 [Some ct_file_16] = Inl RangeError"
proof -
  have "getUint32 pixel_stream 28 = Some 2"
    by (simp add: getUint32_def pixel_stream_def)
  moreover have "usable ct_file_16" by (simp add: usable_def ct_file_16_def)
  ultimately show ?thesis
    by (simp add: header_pixel_stream parseDicom_pixel_stream processDicomFolder_fails
        processParsed_ct_file_16)
qed

end
